theory Spec2Isabelle
  imports Main
begin

section \<open>Python dictionaries\<close>

text \<open>
  A Python \<open>dict\<close> keeps its keys in insertion order, and an assignment \<open>d[k] = v\<close> to a
  key that is already present replaces the value and leaves the key where it is. The
  dictionaries of the program (the result mapping, a molecule's property mapping, the
  rows handed to pandas) are association lists with distinct keys, built by \<open>dict_set\<close>
  only; \<open>map_of\<close> reads them and \<open>map fst\<close> lists their keys in iteration order. A dict
  of the input is the list of its items in iteration order.
\<close>

type_synonym ('k, 'v) dict = "('k \<times> 'v) list"

fun dict_set :: "('k, 'v) dict \<Rightarrow> 'k \<Rightarrow> 'v \<Rightarrow> ('k, 'v) dict" where
  "dict_set [] k v = [(k, v)]"
| "dict_set ((k', v') # d) k v =
     (if k' = k then (k, v) # d else (k', v') # dict_set d k v)"

section \<open>The collaborators: RDKit, \<open>str\<close> and pydantic\<close>

text \<open>
  The chemistry library is a parameter of the model. \<open>MolFromSmiles\<close> returns a molecule
  or \<open>None\<close>. \<open>Descriptors\<close> is the module that \<open>getattr(Descriptors, desc_name, None)\<close>
  looks a function up in: the lookup gives \<open>None\<close> when the module has no attribute of
  that name, and a function that, called on a molecule, returns a number or raises.
  \<open>str\<close> is Python's \<open>str()\<close> on a molecule object. The type \<open>'m\<close> is whatever object the
  caller passes as a molecule, \<open>'v\<close> the numbers the descriptors return.
\<close>

datatype 'v outcome = Returns 'v | Raises

record ('m, 'v) rdkit =
  MolFromSmiles :: "string \<Rightarrow> 'm option"
  Descriptors :: "string \<Rightarrow> ('m \<Rightarrow> 'v outcome) option"
  str :: "'m \<Rightarrow> string"

text \<open>
  The exceptions that leave \<open>calculate\<close>: the \<open>KeyError\<close> of line 78 (it carries the
  descriptor name that the message quotes), the \<open>UnboundLocalError\<close> of reading the
  local \<open>key\<close> before any assignment (lines 86 and 88), pydantic's \<open>ValidationError\<close> from
  the constructor of \<open>Molecule\<close>, and the \<open>TypeError\<close> of unpacking \<open>None\<close> with \<open>**\<close> in
  \<open>to_dataframe\<close>.
\<close>

datatype error = KeyError string | UnboundLocalError | ValidationError | TypeError

section \<open>class Molecule\<close>

text \<open>
  \<open>properties: Optional[Dict[str, float]]\<close>: the values of the mapping are numbers; \<open>None\<close>
  as a value is what \<open>_calculate_for_molecule\<close> stores for a descriptor that failed, so
  the model's mapping has optional values, and the constructor (pydantic's validation of
  the declared field types) rejects a mapping that holds a \<open>None\<close>.
\<close>

record 'v Molecule =
  name :: string
  smiles :: "string option"
  properties :: "(string, 'v option) dict option"

definition validate_smiles :: "('m, 'v) rdkit \<Rightarrow> string option \<Rightarrow> error + string option" where
  "validate_smiles rd v =
     (case v of
        None \<Rightarrow> Inr v
      | Some s \<Rightarrow>
          (case MolFromSmiles rd s of
             None \<Rightarrow> Inl ValidationError
           | Some _ \<Rightarrow> Inr v))"

definition valid_float_dict :: "(string, 'v option) dict option \<Rightarrow> bool" where
  "valid_float_dict p =
     (case p of None \<Rightarrow> True | Some d \<Rightarrow> list_all (\<lambda>kv. snd kv \<noteq> None) d)"

definition Molecule_init ::
  "('m, 'v) rdkit \<Rightarrow> string \<Rightarrow> string option \<Rightarrow> (string, 'v option) dict option
     \<Rightarrow> error + 'v Molecule" where
  "Molecule_init rd n s p =
     (case validate_smiles rd s of
        Inl e \<Rightarrow> Inl e
      | Inr s' \<Rightarrow>
          if valid_float_dict p
          then Inr \<lparr>name = n, smiles = s', properties = p\<rparr>
          else Inl ValidationError)"

section \<open>class MolecularPropertiesCalculator\<close>

subsection \<open>The registry \<open>self.properties\<close>\<close>

record names =
  full :: string
  abbrev :: string

definition calculator_properties :: "(string, names) dict" where
  "calculator_properties =
     [(''MolWt'', \<lparr>full = ''Molecular Weight'', abbrev = ''MW''\<rparr>),
      (''MolLogP'', \<lparr>full = ''LogP'', abbrev = ''LogP''\<rparr>),
      (''NumHDonors'', \<lparr>full = ''H-bond Donors'', abbrev = ''HBD''\<rparr>),
      (''NumHAcceptors'', \<lparr>full = ''H-bond Acceptors'', abbrev = ''HBA''\<rparr>),
      (''NumRotatableBonds'', \<lparr>full = ''Rotatable Bonds'', abbrev = ''RB''\<rparr>),
      (''NumAromaticRings'', \<lparr>full = ''Aromatic Rings'', abbrev = ''AR''\<rparr>),
      (''TPSA'', \<lparr>full = ''TPSA'', abbrev = ''TPSA''\<rparr>),
      (''HeavyAtomCount'', \<lparr>full = ''Heavy Atom Count'', abbrev = ''HAC''\<rparr>),
      (''FractionCSP3'', \<lparr>full = ''FractionCSP3'', abbrev = ''FSP3''\<rparr>),
      (''LabuteASA'', \<lparr>full = ''Labute ASA'', abbrev = ''ASA''\<rparr>)]"

subsection \<open>The instance\<close>

text \<open>
  The input is a list of items (each a dict from name to SMILES string, or a molecule
  object), a dict from name to SMILES string, or anything else, taken as one molecule
  object. The registry is the same in every instance, so the instance is its input, the
  flag \<open>abbrev\<close> and the list \<open>molecule_set\<close>, which \<open>__init__\<close> sets to \<open>[]\<close>.
\<close>

datatype 'm item = DictItem "(string, string) dict" | ObjItem 'm

datatype 'm input_data = InList "'m item list" | InDict "(string, string) dict" | InObj 'm

record ('m, 'v) calculator =
  input_data :: "'m input_data"
  abbrev_flag :: bool
  molecule_set :: "'v Molecule list"

definition calculator_init :: "'m input_data \<Rightarrow> bool \<Rightarrow> ('m, 'v) calculator" where
  "calculator_init inp ab = \<lparr>input_data = inp, abbrev_flag = ab, molecule_set = []\<rparr>"

subsection \<open>\<open>_calculate_for_molecule\<close>\<close>

text \<open>
  Line 75: \<open>properties if properties else self.properties.keys()\<close>. \<open>None\<close> and the empty
  list are both falsy, so both select every key of the registry.
\<close>

definition properties_to_calculate :: "string list option \<Rightarrow> string list" where
  "properties_to_calculate props =
     (case props of
        None \<Rightarrow> map fst calculator_properties
      | Some [] \<Rightarrow> map fst calculator_properties
      | Some (p # ps) \<Rightarrow> p # ps)"

text \<open>
  The loop of lines 76 to 88. Its state is the mapping \<open>result\<close> and the local \<open>key\<close>,
  which is unbound (\<open>None\<close> here) until the first iteration that finds a descriptor
  function. With no function, line 86 reads \<open>key\<close>: unbound, that raises
  \<open>UnboundLocalError\<close> inside the \<open>try\<close>, the handler of line 88 reads \<open>key\<close> again and the
  error leaves the method; bound, the \<open>None\<close> is stored under the name bound earlier.
  A function that raises is caught by line 87 after line 83 has bound \<open>key\<close>.
\<close>

fun calculate_loop ::
  "('m, 'v) rdkit \<Rightarrow> bool \<Rightarrow> 'm \<Rightarrow> string list
     \<Rightarrow> (string, 'v option) dict \<Rightarrow> string option
     \<Rightarrow> error + (string, 'v option) dict" where
  "calculate_loop rd ab molecule [] result key = Inr result"
| "calculate_loop rd ab molecule (desc_name # rest) result key =
     (case map_of calculator_properties desc_name of
        None \<Rightarrow> Inl (KeyError desc_name)
      | Some nms \<Rightarrow>
          (case Descriptors rd desc_name of
             Some descriptor_func \<Rightarrow>
               (let key' = (if ab then abbrev nms else full nms) in
                  (case descriptor_func molecule of
                     Returns x \<Rightarrow>
                       calculate_loop rd ab molecule rest (dict_set result key' (Some x)) (Some key')
                   | Raises \<Rightarrow>
                       calculate_loop rd ab molecule rest (dict_set result key' None) (Some key')))
           | None \<Rightarrow>
               (case key of
                  None \<Rightarrow> Inl UnboundLocalError
                | Some k \<Rightarrow> calculate_loop rd ab molecule rest (dict_set result k None) key)))"

definition calculate_for_molecule ::
  "('m, 'v) rdkit \<Rightarrow> bool \<Rightarrow> 'm \<Rightarrow> string list option \<Rightarrow> error + (string, 'v option) dict" where
  "calculate_for_molecule rd ab molecule props =
     calculate_loop rd ab molecule (properties_to_calculate props) [] None"

subsection \<open>\<open>calculate\<close>\<close>

text \<open>
  A value of the local mapping \<open>results\<close>: \<open>{'smiles': ..., 'properties': ...}\<close>.
\<close>

record 'v entry =
  entry_smiles :: "string option"
  entry_properties :: "(string, 'v option) dict option"

type_synonym 'v results = "(string, 'v entry) dict"

text \<open>
  Every step below returns the outcome for the local \<open>results\<close> (lost when an exception
  leaves \<open>calculate\<close>) together with \<open>self.molecule_set\<close>, which stays as it is at that
  moment whatever happens.

  Lines 41 to 47 and again 55 to 61: one name with its SMILES string.
\<close>

definition smiles_step ::
  "('m, 'v) rdkit \<Rightarrow> bool \<Rightarrow> string list option \<Rightarrow> string \<times> string
     \<Rightarrow> 'v results \<Rightarrow> 'v Molecule list \<Rightarrow> (error + 'v results) \<times> 'v Molecule list" where
  "smiles_step rd ab props kv results ms =
     (case MolFromSmiles rd (snd kv) of
        Some molecule \<Rightarrow>
          (case calculate_for_molecule rd ab molecule props of
             Inl e \<Rightarrow> (Inl e, ms)
           | Inr calculated_properties \<Rightarrow>
               (case Molecule_init rd (fst kv) (Some (snd kv)) (Some calculated_properties) of
                  Inl e \<Rightarrow> (Inl e, ms)
                | Inr m \<Rightarrow>
                    (Inr (dict_set results (fst kv)
                            \<lparr>entry_smiles = Some (snd kv),
                             entry_properties = Some calculated_properties\<rparr>),
                     ms @ [m])))
      | None \<Rightarrow>
          (Inr (dict_set results (fst kv)
                  \<lparr>entry_smiles = Some (snd kv), entry_properties = None\<rparr>),
           ms))"

text \<open>Lines 50 to 52 and again 64 to 66: one molecule object.\<close>

definition object_step ::
  "('m, 'v) rdkit \<Rightarrow> bool \<Rightarrow> string list option \<Rightarrow> 'm
     \<Rightarrow> 'v results \<Rightarrow> 'v Molecule list \<Rightarrow> (error + 'v results) \<times> 'v Molecule list" where
  "object_step rd ab props obj results ms =
     (case calculate_for_molecule rd ab obj props of
        Inl e \<Rightarrow> (Inl e, ms)
      | Inr calculated_properties \<Rightarrow>
          (case Molecule_init rd (str rd obj) None (Some calculated_properties) of
             Inl e \<Rightarrow> (Inl e, ms)
           | Inr m \<Rightarrow>
               (Inr (dict_set results (str rd obj)
                       \<lparr>entry_smiles = None,
                        entry_properties = Some calculated_properties\<rparr>),
                ms @ [m])))"

text \<open>The loop over the items of a dict (lines 40 and 54).\<close>

fun dict_loop ::
  "('m, 'v) rdkit \<Rightarrow> bool \<Rightarrow> string list option \<Rightarrow> (string, string) dict
     \<Rightarrow> 'v results \<Rightarrow> 'v Molecule list \<Rightarrow> (error + 'v results) \<times> 'v Molecule list" where
  "dict_loop rd ab props [] results ms = (Inr results, ms)"
| "dict_loop rd ab props (kv # kvs) results ms =
     (case smiles_step rd ab props kv results ms of
        (Inl e, ms') \<Rightarrow> (Inl e, ms')
      | (Inr results', ms') \<Rightarrow> dict_loop rd ab props kvs results' ms')"

text \<open>The loop over the items of a list (line 38).\<close>

fun list_loop ::
  "('m, 'v) rdkit \<Rightarrow> bool \<Rightarrow> string list option \<Rightarrow> 'm item list
     \<Rightarrow> 'v results \<Rightarrow> 'v Molecule list \<Rightarrow> (error + 'v results) \<times> 'v Molecule list" where
  "list_loop rd ab props [] results ms = (Inr results, ms)"
| "list_loop rd ab props (DictItem d # items) results ms =
     (case dict_loop rd ab props d results ms of
        (Inl e, ms') \<Rightarrow> (Inl e, ms')
      | (Inr results', ms') \<Rightarrow> list_loop rd ab props items results' ms')"
| "list_loop rd ab props (ObjItem obj # items) results ms =
     (case object_step rd ab props obj results ms of
        (Inl e, ms') \<Rightarrow> (Inl e, ms')
      | (Inr results', ms') \<Rightarrow> list_loop rd ab props items results' ms')"

subsection \<open>\<open>to_dataframe\<close>\<close>

text \<open>
  The dict comprehension of lines 92 to 95 builds, for every molecule of
  \<open>molecule_set\<close> in order, the row \<open>{**molecule.properties, 'smiles': molecule.smiles}\<close>
  under the molecule's name; \<open>**None\<close> raises \<open>TypeError\<close>. A cell is a number, a string
  or \<open>None\<close>.
\<close>

datatype 'v cell = Number 'v | Text string | NoneCell

type_synonym 'v frame_data = "(string, (string, 'v cell) dict) dict"

definition property_cell :: "'v option \<Rightarrow> 'v cell" where
  "property_cell v = (case v of None \<Rightarrow> NoneCell | Some x \<Rightarrow> Number x)"

definition smiles_cell :: "string option \<Rightarrow> 'v cell" where
  "smiles_cell s = (case s of None \<Rightarrow> NoneCell | Some t \<Rightarrow> Text t)"

definition frame_row :: "(string, 'v option) dict \<Rightarrow> string option \<Rightarrow> (string, 'v cell) dict" where
  "frame_row p s =
     dict_set (map (\<lambda>kv. (fst kv, property_cell (snd kv))) p) ''smiles'' (smiles_cell s)"

fun frame_rows :: "'v Molecule list \<Rightarrow> 'v frame_data \<Rightarrow> error + 'v frame_data" where
  "frame_rows [] data = Inr data"
| "frame_rows (molecule # ms) data =
     (case properties molecule of
        None \<Rightarrow> Inl TypeError
      | Some p \<Rightarrow>
          frame_rows ms (dict_set data (name molecule) (frame_row p (smiles molecule))))"

text \<open>
  \<open>pd.DataFrame.from_dict(data, orient='index')\<close> makes one row for each key of \<open>data\<close>
  and one column for each key that occurs in some row; a cell whose row has no such key
  is missing. The frame is represented by \<open>data\<close> itself, read through the three
  functions below (the order in which pandas lists rows and columns is its own).
\<close>

definition to_dataframe :: "('m, 'v) calculator \<Rightarrow> error + 'v frame_data" where
  "to_dataframe self = frame_rows (molecule_set self) []"

definition frame_index :: "'v frame_data \<Rightarrow> string set" where
  "frame_index data = set (map fst data)"

definition frame_columns :: "'v frame_data \<Rightarrow> string set" where
  "frame_columns data = set (concat (map (\<lambda>row. map fst (snd row)) data))"

definition frame_cell :: "'v frame_data \<Rightarrow> string \<Rightarrow> string \<Rightarrow> 'v cell option" where
  "frame_cell data r c =
     (case map_of data r of
        None \<Rightarrow> None
      | Some row \<Rightarrow> (case map_of row c of None \<Rightarrow> Some NoneCell | Some x \<Rightarrow> Some x))"

subsection \<open>\<open>calculate\<close>, whole\<close>

datatype 'v returned = Results "'v results" | Table "'v frame_data"

definition calculate_body ::
  "('m, 'v) rdkit \<Rightarrow> ('m, 'v) calculator \<Rightarrow> string list option
     \<Rightarrow> (error + 'v results) \<times> 'v Molecule list" where
  "calculate_body rd self props =
     (case input_data self of
        InList items \<Rightarrow> list_loop rd (abbrev_flag self) props items [] (molecule_set self)
      | InDict d \<Rightarrow> dict_loop rd (abbrev_flag self) props d [] (molecule_set self)
      | InObj obj \<Rightarrow> object_step rd (abbrev_flag self) props obj [] (molecule_set self))"

definition calculate ::
  "('m, 'v) rdkit \<Rightarrow> ('m, 'v) calculator \<Rightarrow> bool \<Rightarrow> string list option
     \<Rightarrow> (error + 'v returned) \<times> ('m, 'v) calculator" where
  "calculate rd self as_df props =
     (case calculate_body rd self props of
        (Inl e, ms') \<Rightarrow> (Inl e, self\<lparr>molecule_set := ms'\<rparr>)
      | (Inr results, ms') \<Rightarrow>
          (let self' = self\<lparr>molecule_set := ms'\<rparr> in
             if as_df
             then (case to_dataframe self' of
                     Inl e \<Rightarrow> (Inl e, self')
                   | Inr data \<Rightarrow> (Inr (Table data), self'))
             else (Inr (Results results), self')))"

section \<open>Vocabulary of the specification\<close>

text \<open>
  The definitions of this section are not code of the program: they name what the
  specification talks about, so that the properties below can be stated against the
  functions above.
\<close>

subsection \<open>Display names\<close>

text \<open>The display name a registry key resolves to (lines 79 and 83).\<close>

definition resolved_name :: "bool \<Rightarrow> string \<Rightarrow> string option" where
  "resolved_name ab d =
     (case map_of calculator_properties d of
        None \<Rightarrow> None
      | Some nms \<Rightarrow> Some (if ab then abbrev nms else full nms))"

text \<open>
  Two property mappings that hold the same values in the same order, the first keyed by
  the abbreviated and the second by the full name of one registry entry each.
\<close>

definition names_match :: "string \<Rightarrow> string \<Rightarrow> bool" where
  "names_match ka kf =
     list_ex (\<lambda>kn. ka = abbrev (snd kn) \<and> kf = full (snd kn)) calculator_properties"

definition same_values :: "(string, 'v option) dict \<Rightarrow> (string, 'v option) dict \<Rightarrow> bool" where
  "same_values pa pf = list_all2 (\<lambda>a f. names_match (fst a) (fst f) \<and> snd a = snd f) pa pf"

text \<open>
  Two entries, and two result mappings, that differ in the names of the properties only;
  two outcomes of a call that are the same exception or such result mappings.
\<close>

definition same_entry :: "'v entry \<Rightarrow> 'v entry \<Rightarrow> bool" where
  "same_entry ea ef =
     (entry_smiles ea = entry_smiles ef
      \<and> rel_option same_values (entry_properties ea) (entry_properties ef))"

definition same_entries :: "'v results \<Rightarrow> 'v results \<Rightarrow> bool" where
  "same_entries ra rf =
     list_all2 (\<lambda>a f. fst a = fst f \<and> same_entry (snd a) (snd f)) ra rf"

definition same_returned :: "'v returned \<Rightarrow> 'v returned \<Rightarrow> bool" where
  "same_returned oa obf =
     (case oa of
        Results ra \<Rightarrow> (case obf of Results rf \<Rightarrow> same_entries ra rf | Table t \<Rightarrow> False)
      | Table t \<Rightarrow> False)"

subsection \<open>The input normalizer\<close>

text \<open>
  The specification's normalizer: the input, whatever its shape, as the sequence of
  candidates that \<open>calculate\<close> visits, in iteration order. A candidate is a name with a
  raw identifier, or an already parsed structure, named by its string representation.
\<close>

datatype 'm candidate = Identifier string string | Structure 'm

definition item_candidates :: "'m item \<Rightarrow> 'm candidate list" where
  "item_candidates it =
     (case it of
        DictItem d \<Rightarrow> map (\<lambda>kv. Identifier (fst kv) (snd kv)) d
      | ObjItem obj \<Rightarrow> [Structure obj])"

definition input_candidates :: "'m input_data \<Rightarrow> 'm candidate list" where
  "input_candidates inp =
     (case inp of
        InList items \<Rightarrow> concat (map item_candidates items)
      | InDict d \<Rightarrow> map (\<lambda>kv. Identifier (fst kv) (snd kv)) d
      | InObj obj \<Rightarrow> [Structure obj])"

definition candidate_name :: "('m, 'v) rdkit \<Rightarrow> 'm candidate \<Rightarrow> string" where
  "candidate_name rd c = (case c of Identifier n s \<Rightarrow> n | Structure obj \<Rightarrow> str rd obj)"

text \<open>The structure that the evaluator receives for a candidate, if any.\<close>

definition candidate_structure :: "('m, 'v) rdkit \<Rightarrow> 'm candidate \<Rightarrow> 'm option" where
  "candidate_structure rd c =
     (case c of Identifier n s \<Rightarrow> MolFromSmiles rd s | Structure obj \<Rightarrow> Some obj)"

definition candidate_step ::
  "('m, 'v) rdkit \<Rightarrow> bool \<Rightarrow> string list option \<Rightarrow> 'm candidate
     \<Rightarrow> 'v results \<Rightarrow> 'v Molecule list \<Rightarrow> (error + 'v results) \<times> 'v Molecule list" where
  "candidate_step rd ab props c results ms =
     (case c of
        Identifier n s \<Rightarrow> smiles_step rd ab props (n, s) results ms
      | Structure obj \<Rightarrow> object_step rd ab props obj results ms)"

fun candidates_loop ::
  "('m, 'v) rdkit \<Rightarrow> bool \<Rightarrow> string list option \<Rightarrow> 'm candidate list
     \<Rightarrow> 'v results \<Rightarrow> 'v Molecule list \<Rightarrow> (error + 'v results) \<times> 'v Molecule list" where
  "candidates_loop rd ab props [] results ms = (Inr results, ms)"
| "candidates_loop rd ab props (c # cs) results ms =
     (case candidate_step rd ab props c results ms of
        (Inl e, ms') \<Rightarrow> (Inl e, ms')
      | (Inr results', ms') \<Rightarrow> candidates_loop rd ab props cs results' ms')"

text \<open>
  The distinct elements of a list, each at the place of its first occurrence: the keys of
  a dict after assigning to the elements in turn.
\<close>

fun first_occurrences :: "'a list \<Rightarrow> 'a list" where
  "first_occurrences [] = []"
| "first_occurrences (x # xs) = x # removeAll x (first_occurrences xs)"

subsection \<open>Requests that the chemistry library serves\<close>

text \<open>
  Every key that a request selects is in the registry (a valid request), and the library
  has a function for each of them; and, for one structure, each function returns a number.
\<close>

definition valid_request :: "string list option \<Rightarrow> bool" where
  "valid_request props =
     list_all (\<lambda>d. map_of calculator_properties d \<noteq> None) (properties_to_calculate props)"

definition available :: "('m, 'v) rdkit \<Rightarrow> string list \<Rightarrow> bool" where
  "available rd ds = list_all (\<lambda>d. Descriptors rd d \<noteq> None) ds"

definition computes :: "('m, 'v) rdkit \<Rightarrow> string list option \<Rightarrow> 'm \<Rightarrow> bool" where
  "computes rd props m =
     list_all
       (\<lambda>d. case Descriptors rd d of
              None \<Rightarrow> False
            | Some f \<Rightarrow> (case f m of Returns x \<Rightarrow> True | Raises \<Rightarrow> False))
       (properties_to_calculate props)"

subsection \<open>What a call that returns has done\<close>

text \<open>
  The raw identifier of a candidate, the entry that \<open>calculate\<close> stores in \<open>results\<close> for
  it and the record that it appends to \<open>molecule_set\<close> when the candidate has a structure
  and the evaluator returns the mapping \<open>p\<close>.
\<close>

definition candidate_identifier :: "'m candidate \<Rightarrow> string option" where
  "candidate_identifier c = (case c of Identifier n s \<Rightarrow> Some s | Structure obj \<Rightarrow> None)"

definition candidate_properties ::
  "('m, 'v) rdkit \<Rightarrow> bool \<Rightarrow> string list option \<Rightarrow> 'm candidate
     \<Rightarrow> (string, 'v option) dict option" where
  "candidate_properties rd ab props c =
     (case candidate_structure rd c of
        None \<Rightarrow> None
      | Some m \<Rightarrow>
          (case calculate_for_molecule rd ab m props of Inl e \<Rightarrow> None | Inr p \<Rightarrow> Some p))"

definition candidate_entry ::
  "('m, 'v) rdkit \<Rightarrow> bool \<Rightarrow> string list option \<Rightarrow> 'm candidate \<Rightarrow> 'v entry" where
  "candidate_entry rd ab props c =
     \<lparr>entry_smiles = candidate_identifier c,
      entry_properties = candidate_properties rd ab props c\<rparr>"

definition candidate_record ::
  "('m, 'v) rdkit \<Rightarrow> bool \<Rightarrow> string list option \<Rightarrow> 'm candidate \<Rightarrow> 'v Molecule" where
  "candidate_record rd ab props c =
     \<lparr>name = candidate_name rd c, smiles = candidate_identifier c,
      properties = candidate_properties rd ab props c\<rparr>"

text \<open>The first requested key that the registry does not have.\<close>

definition first_unknown :: "string list \<Rightarrow> string option" where
  "first_unknown ds = find (\<lambda>d. map_of calculator_properties d = None) ds"

text \<open>
  A request that the library serves for an input: it is valid, and for every candidate
  with a structure every selected descriptor function exists and returns a number.
\<close>

definition request_served ::
  "('m, 'v) rdkit \<Rightarrow> string list option \<Rightarrow> 'm input_data \<Rightarrow> bool" where
  "request_served rd props inp =
     (valid_request props
      \<and> list_all
          (\<lambda>c. case candidate_structure rd c of None \<Rightarrow> True | Some m \<Rightarrow> computes rd props m)
          (input_candidates inp))"

text \<open>The results and the records of a call that returns, from its candidates.\<close>

definition recorded_results ::
  "('m, 'v) rdkit \<Rightarrow> bool \<Rightarrow> string list option \<Rightarrow> 'm candidate list \<Rightarrow> 'v results
     \<Rightarrow> 'v results" where
  "recorded_results rd ab props cs results =
     fold (\<lambda>c res. dict_set res (candidate_name rd c) (candidate_entry rd ab props c)) cs results"

definition appended_records ::
  "('m, 'v) rdkit \<Rightarrow> bool \<Rightarrow> string list option \<Rightarrow> 'm candidate list \<Rightarrow> 'v Molecule list" where
  "appended_records rd ab props cs =
     map (candidate_record rd ab props) (filter (\<lambda>c. candidate_structure rd c \<noteq> None) cs)"

subsection \<open>Rows of the table\<close>

text \<open>The last element of a list that satisfies a predicate, and the row of a record.\<close>

fun last_with :: "('a \<Rightarrow> bool) \<Rightarrow> 'a list \<Rightarrow> 'a option" where
  "last_with P [] = None"
| "last_with P (x # xs) =
     (case last_with P xs of
        Some y \<Rightarrow> Some y
      | None \<Rightarrow> if P x then Some x else None)"

definition record_row :: "'v Molecule \<Rightarrow> (string, 'v cell) dict" where
  "record_row mo =
     frame_row (case properties mo of None \<Rightarrow> [] | Some p \<Rightarrow> p) (smiles mo)"

subsection \<open>A small chemistry library for the examples\<close>

text \<open>
  Two identifiers parse, a molecule is its own identifier, every registry key has a
  function, and a function raises on an object that is not a molecule (as RDKit does on a
  string handed over in a list).
\<close>

definition demo_rdkit :: "(string, int) rdkit" where
  "demo_rdkit =
     \<lparr>MolFromSmiles = (\<lambda>s. if s = ''CCO'' \<or> s = ''C'' then Some s else None),
      Descriptors =
        (\<lambda>d. if map_of calculator_properties d \<noteq> None
              then Some (\<lambda>m. if m = ''CCO'' \<or> m = ''C''
                              then Returns (int (length m) + int (length d))
                              else Raises)
              else None),
      str = (\<lambda>m. ''<'' @ m @ ''>'')\<rparr>"

text \<open>The same library without the function \<open>MolWt\<close>.\<close>

definition demo_rdkit_no_MolWt :: "(string, int) rdkit" where
  "demo_rdkit_no_MolWt =
     demo_rdkit\<lparr>Descriptors := (\<lambda>d. if d = ''MolWt'' then None else Descriptors demo_rdkit d)\<rparr>"

text \<open>
  An instance that holds one record of an earlier call. Its input is a list of a dict
  (an identifier that does not parse, one that parses) and a molecule object.
\<close>

definition demo_calculator :: "(string, int) calculator" where
  "demo_calculator =
     \<lparr>input_data = InList [DictItem [(''bad'', ''xx''), (''ethanol'', ''CCO'')], ObjItem ''C''],
      abbrev_flag = True,
      molecule_set =
        [\<lparr>name = ''methane'', smiles = Some ''C'', properties = Some [(''MW'', Some 6)]\<rparr>]\<rparr>"

section \<open>Properties\<close>

subsection \<open>Dictionaries\<close>

lemma map_fst_dict_set:
  "map fst (dict_set d k v) = (if k \<in> set (map fst d) then map fst d else map fst d @ [k])"
  by (induction d) (auto simp: rev_image_eqI)

lemma set_fst_dict_set: "fst ` set (dict_set d k v) = insert k (fst ` set d)"
proof -
  have "set (map fst (dict_set d k v)) = insert k (set (map fst d))"
    by (auto simp: map_fst_dict_set)
  then show ?thesis by simp
qed

lemma distinct_dict_set: "distinct (map fst d) \<Longrightarrow> distinct (map fst (dict_set d k v))"
  by (simp add: map_fst_dict_set)

lemma map_of_dict_set: "map_of (dict_set d k v) = (map_of d)(k \<mapsto> v)"
  by (induction d) auto

subsection \<open>The evaluator\<close>

lemma calculate_loop_Inr_registered:
  "calculate_loop rd ab m ds result key = Inr r
     \<Longrightarrow> list_all (\<lambda>d. map_of calculator_properties d \<noteq> None) ds"
proof (induction ds arbitrary: result key)
  case Nil
  then show ?case by simp
next
  case (Cons d ds)
  from Cons.prems obtain nms where nms: "map_of calculator_properties d = Some nms"
    by (auto split: option.splits)
  from Cons.prems nms have "\<exists>result' key'. calculate_loop rd ab m ds result' key' = Inr r"
    by (auto simp: Let_def split: option.splits outcome.splits)
  then show ?case using Cons.IH nms by auto
qed

lemma calculate_loop_KeyError:
  "calculate_loop rd ab m ds result key = Inl (KeyError k)
     \<Longrightarrow> k \<in> set ds \<and> map_of calculator_properties k = None"
proof (induction ds arbitrary: result key)
  case Nil
  then show ?case by simp
next
  case (Cons d ds)
  show ?case
  proof (cases "map_of calculator_properties d")
    case None
    with Cons.prems show ?thesis by simp
  next
    case (Some nms)
    with Cons.prems have "\<exists>result' key'. calculate_loop rd ab m ds result' key' = Inl (KeyError k)"
      by (auto simp: Let_def split: option.splits outcome.splits)
    then show ?thesis using Cons.IH by auto
  qed
qed

lemma calculate_for_molecule_Inr_valid:
  "calculate_for_molecule rd ab m props = Inr r \<Longrightarrow> valid_request props"
  unfolding calculate_for_molecule_def valid_request_def
  by (rule calculate_loop_Inr_registered)

lemma calculate_for_molecule_KeyError_invalid:
  "calculate_for_molecule rd ab m props = Inl (KeyError k) \<Longrightarrow> \<not> valid_request props"
  unfolding calculate_for_molecule_def valid_request_def
  by (auto dest!: calculate_loop_KeyError simp: list_all_iff)

lemma calculate_loop_keys:
  "list_all (\<lambda>d. map_of calculator_properties d \<noteq> None) ds \<Longrightarrow> available rd ds
     \<Longrightarrow> distinct (map fst result)
     \<Longrightarrow> \<exists>r. calculate_loop rd ab m ds result key = Inr r \<and> distinct (map fst r)
            \<and> set (map fst r)
                = set (map fst result) \<union> {k. \<exists>d\<in>set ds. resolved_name ab d = Some k}"
proof (induction ds arbitrary: result key)
  case Nil
  then show ?case by simp
next
  case (Cons d ds)
  from Cons.prems obtain nms f where nms: "map_of calculator_properties d = Some nms"
    and f: "Descriptors rd d = Some f"
    by (auto simp: available_def)
  define k where "k = (if ab then abbrev nms else full nms)"
  have rn: "resolved_name ab d = Some k"
    by (simp add: resolved_name_def nms k_def)
  obtain v where step: "calculate_loop rd ab m (d # ds) result key
      = calculate_loop rd ab m ds (dict_set result k v) (Some k)"
    using nms f by (cases "f m") (auto simp: k_def Let_def)
  have "distinct (map fst (dict_set result k v))"
    using Cons.prems(3) by (rule distinct_dict_set)
  moreover have "list_all (\<lambda>d. map_of calculator_properties d \<noteq> None) ds" "available rd ds"
    using Cons.prems by (auto simp: available_def)
  ultimately obtain r where r: "calculate_loop rd ab m ds (dict_set result k v) (Some k) = Inr r"
     "distinct (map fst r)"
     "set (map fst r) = set (map fst (dict_set result k v))
          \<union> {k. \<exists>d\<in>set ds. resolved_name ab d = Some k}"
    using Cons.IH by blast
  have "set (map fst r) = set (map fst result) \<union> {k. \<exists>d\<in>set (d # ds). resolved_name ab d = Some k}"
    using r(3) rn by (auto simp: set_fst_dict_set)
  with r(1,2) step show ?case by simp
qed

section \<open>The per-property loop\<close>

text \<open>
  C10. In the loop of \<open>_calculate_for_molecule\<close> the local \<open>key\<close> is assigned only in the
  branch that found a descriptor function: an iteration for a key \<open>d0\<close> that has a
  function stores its outcome under the display name of \<open>d0\<close> and binds \<open>key\<close> to that
  name. An iteration for a registry key \<open>d\<close> without a function stores \<open>None\<close> under the
  name that an earlier iteration bound and leaves \<open>key\<close> as it is, so a request for \<open>d0\<close>
  and then \<open>d\<close> returns the one-entry mapping with \<open>None\<close> under the name of \<open>d0\<close>: the
  value computed for \<open>d0\<close> is gone, and no key stands for \<open>d\<close>. With \<open>key\<close> still
  unbound the iteration raises \<open>UnboundLocalError\<close>, so a call whose first key has no
  function raises instead of recording a null.
\<close>

theorem key_bound_only_when_descriptor_found:
  assumes "map_of calculator_properties d = Some nms"
    and "Descriptors rd d = None"
    and "map_of calculator_properties d0 = Some nms0"
    and "Descriptors rd d0 = Some g"
  shows "calculate_loop rd ab m [d] result (Some k) = Inr (dict_set result k None)
         \<and> calculate_loop rd ab m (d # rest) result (Some k)
           = calculate_loop rd ab m rest (dict_set result k None) (Some k)
         \<and> calculate_loop rd ab m (d # rest) result None = Inl UnboundLocalError
         \<and> (properties_to_calculate props = d # rest
              \<longrightarrow> calculate_for_molecule rd ab m props = Inl UnboundLocalError)
         \<and> calculate_loop rd ab m (d0 # rest) result key
           = calculate_loop rd ab m rest
               (dict_set result (if ab then abbrev nms0 else full nms0)
                  (case g m of Returns x \<Rightarrow> Some x | Raises \<Rightarrow> None))
               (Some (if ab then abbrev nms0 else full nms0))
         \<and> (properties_to_calculate props = [d0, d]
              \<longrightarrow> calculate_for_molecule rd ab m props
                   = Inr [(if ab then abbrev nms0 else full nms0, None)])"
proof -
  let ?k0 = "if ab then abbrev nms0 else full nms0"
  have absent: "calculate_loop rd ab m (d # ds) res (Some k')
      = calculate_loop rd ab m ds (dict_set res k' None) (Some k')" for ds res k'
    using assms(1,2) by simp
  have unbound: "calculate_loop rd ab m (d # ds) res None = Inl UnboundLocalError" for ds res
    using assms(1,2) by simp
  have found: "calculate_loop rd ab m (d0 # ds) res key'
      = calculate_loop rd ab m ds
          (dict_set res ?k0 (case g m of Returns x \<Rightarrow> Some x | Raises \<Rightarrow> None)) (Some ?k0)"
    for ds res key'
    using assms(3,4) by (cases "g m") (simp_all add: Let_def)
  have one: "calculate_loop rd ab m [d] result (Some k) = Inr (dict_set result k None)"
    using assms(1,2) by simp
  have first: "properties_to_calculate props = d # rest
      \<longrightarrow> calculate_for_molecule rd ab m props = Inl UnboundLocalError"
    using assms(1,2) by (simp add: calculate_for_molecule_def)
  have "calculate_loop rd ab m [d0, d] [] None = Inr [(?k0, None)]"
    using assms by (cases "g m") (simp_all add: Let_def)
  then have two: "properties_to_calculate props = [d0, d]
      \<longrightarrow> calculate_for_molecule rd ab m props = Inr [(?k0, None)]"
    by (simp add: calculate_for_molecule_def)
  show ?thesis
    using one absent unbound first found two by (intro conjI)
qed

theorem key_bound_only_when_descriptor_found_witness:
  "map_of calculator_properties ''MolWt'' = Some \<lparr>full = ''Molecular Weight'', abbrev = ''MW''\<rparr>
   \<and> Descriptors demo_rdkit_no_MolWt ''MolWt'' = None
   \<and> map_of calculator_properties ''TPSA'' = Some \<lparr>full = ''TPSA'', abbrev = ''TPSA''\<rparr>
   \<and> Descriptors demo_rdkit_no_MolWt ''TPSA''
       = Some (\<lambda>m. if m = ''CCO'' \<or> m = ''C''
                    then Returns (int (length m) + int (length ''TPSA'')) else Raises)
   \<and> calculate_for_molecule demo_rdkit True ''CCO'' (Some [''TPSA'', ''MolWt''])
       = Inr [(''TPSA'', Some 7), (''MW'', Some 8)]
   \<and> calculate_for_molecule demo_rdkit_no_MolWt True ''CCO'' (Some [''TPSA'', ''MolWt''])
       = Inr [(''TPSA'', None)]
   \<and> calculate_loop demo_rdkit_no_MolWt True ''CCO'' [''MolWt''] [(''HBD'', Some 13)] (Some ''HBD'')
       = Inr [(''HBD'', None)]
   \<and> calculate_for_molecule demo_rdkit_no_MolWt True ''CCO'' (Some [''MolWt'', ''TPSA''])
       = Inl UnboundLocalError"
proof -
  have h1: "map_of calculator_properties ''MolWt''
              = Some \<lparr>full = ''Molecular Weight'', abbrev = ''MW''\<rparr>"
    by code_simp
  have h2: "Descriptors demo_rdkit_no_MolWt ''MolWt'' = None"
    by code_simp
  have h3: "map_of calculator_properties ''TPSA'' = Some \<lparr>full = ''TPSA'', abbrev = ''TPSA''\<rparr>"
    by code_simp
  have h4: "Descriptors demo_rdkit_no_MolWt ''TPSA''
       = Some (\<lambda>m. if m = ''CCO'' \<or> m = ''C''
                    then Returns (int (length m) + int (length ''TPSA'')) else Raises)"
    by (simp add: demo_rdkit_no_MolWt_def demo_rdkit_def calculator_properties_def)
  have full: "calculate_for_molecule demo_rdkit True ''CCO'' (Some [''TPSA'', ''MolWt''])
       = Inr [(''TPSA'', Some 7), (''MW'', Some 8)]"
    by code_simp
  have p1: "properties_to_calculate (Some [''TPSA'', ''MolWt'']) = [''TPSA'', ''MolWt'']"
    by (simp add: properties_to_calculate_def)
  have p2: "properties_to_calculate (Some [''MolWt'', ''TPSA'']) = [''MolWt'', ''TPSA'']"
    by (simp add: properties_to_calculate_def)
  note t = key_bound_only_when_descriptor_found [OF h1 h2 h3 h4]
  from t [of True "''CCO''" "[(''HBD'', Some 13)]" "''HBD''" "[]" "Some [''TPSA'', ''MolWt'']" None] p1
  have a: "calculate_for_molecule demo_rdkit_no_MolWt True ''CCO'' (Some [''TPSA'', ''MolWt''])
       = Inr [(''TPSA'', None)]"
    by simp
  from t [of True "''CCO''" "[(''HBD'', Some 13)]" "''HBD''" "[]" "Some [''TPSA'', ''MolWt'']" None]
  have "calculate_loop demo_rdkit_no_MolWt True ''CCO'' [''MolWt''] [(''HBD'', Some 13)] (Some ''HBD'')
       = Inr (dict_set [(''HBD'', Some 13)] ''HBD'' None)"
    by (rule conjunct1)
  then have b: "calculate_loop demo_rdkit_no_MolWt True ''CCO'' [''MolWt''] [(''HBD'', Some 13)]
       (Some ''HBD'') = Inr [(''HBD'', None)]"
    by simp
  from t [of True "''CCO''" "[]" "''HBD''" "[''TPSA'']" "Some [''MolWt'', ''TPSA'']" None] p2
  have c: "calculate_for_molecule demo_rdkit_no_MolWt True ''CCO'' (Some [''MolWt'', ''TPSA''])
       = Inl UnboundLocalError"
    by blast
  from h1 h2 h3 h4 full a b c show ?thesis by (intro conjI)
qed

text \<open>
  C2. A descriptor whose function is missing or raises is meant to leave a null under its
  own name and nothing else. The code does so inside \<open>_calculate_for_molecule\<close> only for a
  function that raises. With the function \<open>MolWt\<close> missing: requested first, the call
  raises \<open>UnboundLocalError\<close> and the batch ends; requested after \<open>TPSA\<close>, the null
  replaces the value computed for \<open>TPSA\<close> and no key stands for \<open>MolWt\<close>. And a null
  recorded for a function that raised makes the constructor of \<open>Molecule\<close> refuse the
  mapping, so \<open>calculate\<close> raises \<open>ValidationError\<close> for the whole batch.
\<close>

theorem failed_descriptor_aborts_batch:
  "calculate_for_molecule demo_rdkit_no_MolWt True ''CCO'' (Some [''MolWt'', ''TPSA''])
     = Inl UnboundLocalError
   \<and> fst (calculate demo_rdkit_no_MolWt
            (calculator_init (InDict [(''ethanol'', ''CCO''), (''methane'', ''C'')]) True)
            False (Some [''MolWt'', ''TPSA'']))
     = Inl UnboundLocalError
   \<and> calculate_for_molecule demo_rdkit True ''CCO'' (Some [''TPSA'', ''MolWt''])
     = Inr [(''TPSA'', Some 7), (''MW'', Some 8)]
   \<and> calculate_for_molecule demo_rdkit_no_MolWt True ''CCO'' (Some [''TPSA'', ''MolWt''])
     = Inr [(''TPSA'', None)]
   \<and> calculate_for_molecule demo_rdkit True ''zz'' (Some [''TPSA'', ''MolWt''])
     = Inr [(''TPSA'', None), (''MW'', None)]
   \<and> fst (calculate demo_rdkit
            (calculator_init (InList [ObjItem ''zz'', DictItem [(''methane'', ''C'')]]) True)
            False (Some [''TPSA'', ''MolWt'']))
     = Inl ValidationError"
  by code_simp

section \<open>The keys of a property mapping\<close>

text \<open>
  C4, as stated, fails for the empty list of requested keys: the empty list is falsy, so
  line 75 selects the whole registry and the mapping has all ten display names, not none.
\<close>

theorem empty_request_counterexample:
  "valid_request (Some [])
   \<and> MolFromSmiles demo_rdkit ''CCO'' = Some ''CCO''
   \<and> calculate_for_molecule demo_rdkit True ''CCO'' (Some [])
       = Inr [(''MW'', Some 8), (''LogP'', Some 10), (''HBD'', Some 13), (''HBA'', Some 16),
              (''RB'', Some 20), (''AR'', Some 19), (''TPSA'', Some 7), (''HAC'', Some 17),
              (''FSP3'', Some 15), (''ASA'', Some 12)]
   \<and> {k. \<exists>d\<in>set []. resolved_name True d = Some k} = {}"
proof -
  have "valid_request (Some [])" by code_simp
  moreover have "MolFromSmiles demo_rdkit ''CCO'' = Some ''CCO''" by code_simp
  moreover have "calculate_for_molecule demo_rdkit True ''CCO'' (Some [])
       = Inr [(''MW'', Some 8), (''LogP'', Some 10), (''HBD'', Some 13), (''HBA'', Some 16),
              (''RB'', Some 20), (''AR'', Some 19), (''TPSA'', Some 7), (''HAC'', Some 17),
              (''FSP3'', Some 15), (''ASA'', Some 12)]" by code_simp
  ultimately show ?thesis by simp
qed

text \<open>
  C4, amended. For every structure and every request (no list, or a list) whose selected
  keys are all in the registry and all have a descriptor function, the evaluator returns
  a mapping whose keys are distinct and are exactly the display names of the selected
  keys; the selected keys are those of the list when it is not empty, and all registry
  keys when there is no list or the list is empty.
\<close>

theorem property_keys_are_selected_display_names:
  assumes "valid_request props"
    and "available rd (properties_to_calculate props)"
  shows "\<exists>r. calculate_for_molecule rd ab m props = Inr r
           \<and> distinct (map fst r)
           \<and> set (map fst r)
               = {k. \<exists>d\<in>set (properties_to_calculate props). resolved_name ab d = Some k}
           \<and> properties_to_calculate props
               = (if props = None \<or> props = Some [] then map fst calculator_properties
                  else the props)"
proof -
  have sel: "properties_to_calculate props
               = (if props = None \<or> props = Some [] then map fst calculator_properties
                  else the props)"
    by (auto simp: properties_to_calculate_def split: option.splits list.splits)
  from assms obtain r where "calculate_loop rd ab m (properties_to_calculate props) [] None = Inr r"
    "distinct (map fst r)"
    "set (map fst r) = set (map fst ([]::(string, 'b option) dict))
        \<union> {k. \<exists>d\<in>set (properties_to_calculate props). resolved_name ab d = Some k}"
    using calculate_loop_keys [of "properties_to_calculate props" rd "[]" ab m None]
    by (auto simp: valid_request_def)
  then show ?thesis using sel by (simp add: calculate_for_molecule_def)
qed

theorem property_keys_are_selected_display_names_witness:
  "valid_request (Some [''TPSA'', ''MolWt''])
   \<and> available demo_rdkit (properties_to_calculate (Some [''TPSA'', ''MolWt'']))
   \<and> (\<exists>r. calculate_for_molecule demo_rdkit False ''CCO'' (Some [''TPSA'', ''MolWt'']) = Inr r
          \<and> distinct (map fst r)
          \<and> set (map fst r) = {''TPSA'', ''Molecular Weight''})"
proof -
  have h1: "valid_request (Some [''TPSA'', ''MolWt''])" by code_simp
  have h2: "available demo_rdkit (properties_to_calculate (Some [''TPSA'', ''MolWt'']))"
    by code_simp
  have sel: "properties_to_calculate (Some [''TPSA'', ''MolWt'']) = [''TPSA'', ''MolWt'']"
    by (simp add: properties_to_calculate_def)
  have n1: "resolved_name False ''TPSA'' = Some ''TPSA''" by code_simp
  have n2: "resolved_name False ''MolWt'' = Some ''Molecular Weight''" by code_simp
  have "{k. \<exists>d\<in>set [''TPSA'', ''MolWt'']. resolved_name False d = Some k}
          = {''TPSA'', ''Molecular Weight''}"
    using n1 n2 by auto
  then show ?thesis
    using property_keys_are_selected_display_names [OF h1 h2, of False "''CCO''"] h1 h2 sel
    by auto
qed

section \<open>The loop over the input\<close>

lemma candidates_loop_append:
  "candidates_loop rd ab props (xs @ ys) results ms =
     (case candidates_loop rd ab props xs results ms of
        (Inl e, ms') \<Rightarrow> (Inl e, ms')
      | (Inr results', ms') \<Rightarrow> candidates_loop rd ab props ys results' ms')"
  by (induction xs arbitrary: results ms) (auto split: prod.splits sum.splits)

lemma dict_loop_candidates:
  "dict_loop rd ab props d results ms
     = candidates_loop rd ab props (map (\<lambda>kv. Identifier (fst kv) (snd kv)) d) results ms"
  by (induction d arbitrary: results ms)
     (auto simp: candidate_step_def split: prod.splits sum.splits)

lemma list_loop_candidates:
  "list_loop rd ab props items results ms
     = candidates_loop rd ab props (concat (map item_candidates items)) results ms"
proof (induction items arbitrary: results ms)
  case Nil
  then show ?case by simp
next
  case (Cons it items)
  show ?case
  proof (cases it)
    case (DictItem d)
    then show ?thesis
      using Cons.IH
      by (simp add: item_candidates_def candidates_loop_append dict_loop_candidates
               split: prod.splits sum.splits)
  next
    case (ObjItem obj)
    then show ?thesis
      using Cons.IH
      by (simp add: item_candidates_def candidate_step_def split: prod.splits sum.splits)
  qed
qed

lemma calculate_body_normalize:
  "calculate_body rd self props
     = candidates_loop rd (abbrev_flag self) props (input_candidates (input_data self)) []
         (molecule_set self)"
  by (cases "input_data self")
     (simp_all add: calculate_body_def input_candidates_def list_loop_candidates dict_loop_candidates
        candidate_step_def split: prod.splits sum.splits)

lemma candidate_step_eq:
  "candidate_step rd ab props c results ms =
     (case candidate_structure rd c of
        None \<Rightarrow> (Inr (dict_set results (candidate_name rd c) (candidate_entry rd ab props c)), ms)
      | Some m \<Rightarrow>
          (case calculate_for_molecule rd ab m props of
             Inl e \<Rightarrow> (Inl e, ms)
           | Inr p \<Rightarrow>
               if valid_float_dict (Some p)
               then (Inr (dict_set results (candidate_name rd c) (candidate_entry rd ab props c)),
                     ms @ [candidate_record rd ab props c])
               else (Inl ValidationError, ms)))"
  by (cases c)
     (auto simp: candidate_step_def smiles_step_def object_step_def candidate_structure_def
        candidate_name_def candidate_entry_def candidate_record_def candidate_identifier_def
        candidate_properties_def Molecule_init_def validate_smiles_def
        split: option.splits sum.splits)

lemma candidate_step_Inl_unchanged:
  "candidate_step rd ab props c results ms = (Inl e, ms') \<Longrightarrow> ms' = ms"
  by (auto simp: candidate_step_eq split: option.splits sum.splits if_splits)

lemma candidate_step_KeyError_invalid:
  "candidate_step rd ab props c results ms = (Inl (KeyError k), ms') \<Longrightarrow> \<not> valid_request props"
  by (auto simp: candidate_step_eq split: option.splits sum.splits if_splits
           dest: calculate_for_molecule_KeyError_invalid)

lemma candidate_step_Inr_cases:
  "candidate_step rd ab props c results ms = (Inr r, ms') \<Longrightarrow> ms' = ms \<or> valid_request props"
  by (auto simp: candidate_step_eq split: option.splits sum.splits if_splits
           dest: calculate_for_molecule_Inr_valid)

lemma candidates_loop_KeyError_invalid:
  "candidates_loop rd ab props cs results ms = (Inl (KeyError k), ms') \<Longrightarrow> \<not> valid_request props"
proof (induction cs arbitrary: results ms)
  case Nil
  then show ?case by simp
next
  case (Cons c cs)
  obtain out ms1 where st: "candidate_step rd ab props c results ms = (out, ms1)"
    by (cases "candidate_step rd ab props c results ms")
  show ?case
  proof (cases out)
    case (Inl e)
    with st Cons.prems have "candidate_step rd ab props c results ms = (Inl (KeyError k), ms1)"
      by simp
    then show ?thesis by (rule candidate_step_KeyError_invalid)
  next
    case (Inr r)
    with st Cons.prems have "candidates_loop rd ab props cs r ms1 = (Inl (KeyError k), ms')"
      by simp
    then show ?thesis by (rule Cons.IH)
  qed
qed

lemma candidates_loop_KeyError_unchanged:
  "candidates_loop rd ab props cs results ms = (Inl (KeyError k), ms') \<Longrightarrow> ms' = ms"
proof (induction cs arbitrary: results ms)
  case Nil
  then show ?case by simp
next
  case (Cons c cs)
  have inv: "\<not> valid_request props"
    using Cons.prems by (rule candidates_loop_KeyError_invalid)
  obtain out ms1 where st: "candidate_step rd ab props c results ms = (out, ms1)"
    by (cases "candidate_step rd ab props c results ms")
  show ?case
  proof (cases out)
    case (Inl e)
    with st Cons.prems have "ms' = ms1" by simp
    moreover from st Inl have "ms1 = ms" by (auto dest: candidate_step_Inl_unchanged)
    ultimately show ?thesis by simp
  next
    case (Inr r)
    with st Cons.prems have "candidates_loop rd ab props cs r ms1 = (Inl (KeyError k), ms')"
      by simp
    then have "ms' = ms1" by (rule Cons.IH)
    moreover from st Inr inv have "ms1 = ms" by (auto dest: candidate_step_Inr_cases)
    ultimately show ?thesis by simp
  qed
qed

lemma frame_rows_error: "frame_rows ms data = Inl e \<Longrightarrow> e = TypeError"
  by (induction ms arbitrary: data) (auto split: option.splits)

text \<open>
  C5. A call of \<open>calculate\<close> that raises the \<open>KeyError\<close> for an unknown property leaves the
  instance as it was, so any call made afterwards behaves as if the failed call had never
  happened. (The check is made for each structure, but all structures share the request:
  the error comes with the first structure that is evaluated, before any record is
  appended.)
\<close>

theorem unknown_property_leaves_state_unchanged:
  assumes "fst (calculate rd self as_df props) = Inl (KeyError k)"
  shows "snd (calculate rd self as_df props) = self
         \<and> calculate rd (snd (calculate rd self as_df props)) as_df' props'
             = calculate rd self as_df' props'"
proof -
  obtain out ms' where body: "calculate_body rd self props = (out, ms')"
    by (cases "calculate_body rd self props")
  have "out = Inl (KeyError k)"
  proof (cases out)
    case (Inl e)
    with assms body show ?thesis by (simp add: calculate_def)
  next
    case (Inr r)
    with assms body show ?thesis
      by (auto simp: calculate_def to_dataframe_def Let_def
               split: if_splits sum.splits dest: frame_rows_error)
  qed
  with body have "candidates_loop rd (abbrev_flag self) props (input_candidates (input_data self)) []
      (molecule_set self) = (Inl (KeyError k), ms')"
    by (simp add: calculate_body_normalize)
  then have "ms' = molecule_set self"
    by (rule candidates_loop_KeyError_unchanged)
  with body \<open>out = Inl (KeyError k)\<close> have "snd (calculate rd self as_df props) = self"
    by (simp add: calculate_def)
  then show ?thesis by simp
qed

theorem unknown_property_leaves_state_unchanged_witness:
  "fst (calculate demo_rdkit
          \<lparr>input_data = InDict [(''bad'', ''xx''), (''ethanol'', ''CCO'')], abbrev_flag = True,
           molecule_set = [\<lparr>name = ''methane'', smiles = Some ''C'', properties = Some [(''MW'', Some 6)]\<rparr>]\<rparr>
          False (Some [''MolWt'', ''NoSuchKey''])) = Inl (KeyError ''NoSuchKey'')
   \<and> snd (calculate demo_rdkit
          \<lparr>input_data = InDict [(''bad'', ''xx''), (''ethanol'', ''CCO'')], abbrev_flag = True,
           molecule_set = [\<lparr>name = ''methane'', smiles = Some ''C'', properties = Some [(''MW'', Some 6)]\<rparr>]\<rparr>
          False (Some [''MolWt'', ''NoSuchKey'']))
       = \<lparr>input_data = InDict [(''bad'', ''xx''), (''ethanol'', ''CCO'')], abbrev_flag = True,
           molecule_set = [\<lparr>name = ''methane'', smiles = Some ''C'', properties = Some [(''MW'', Some 6)]\<rparr>]\<rparr>"
proof -
  have h: "fst (calculate demo_rdkit
          \<lparr>input_data = InDict [(''bad'', ''xx''), (''ethanol'', ''CCO'')], abbrev_flag = True,
           molecule_set = [\<lparr>name = ''methane'', smiles = Some ''C'', properties = Some [(''MW'', Some 6)]\<rparr>]\<rparr>
          False (Some [''MolWt'', ''NoSuchKey''])) = Inl (KeyError ''NoSuchKey'')"
    by code_simp
  show ?thesis
    using unknown_property_leaves_state_unchanged [OF h, of True None] h by blast
qed

section \<open>Identifiers that do not parse\<close>

text \<open>
  C3. For an input entry whose identifier \<open>MolFromSmiles\<close> does not parse, \<open>calculate\<close>
  stores under the entry's name the raw identifier with \<open>properties\<close> \<open>None\<close>, raises
  nothing and goes on with the entries that follow, in a dict as in a dict of a list and
  wherever the entry stands in the input. The descriptor functions play no part in the
  step: it is the same whatever the module \<open>Descriptors\<close> holds.
\<close>

theorem unparsed_identifier_recorded_with_null_properties:
  assumes "MolFromSmiles rd s = None"
  shows "smiles_step rd ab props (n, s) results ms
           = (Inr (dict_set results n \<lparr>entry_smiles = Some s, entry_properties = None\<rparr>), ms)
         \<and> smiles_step (rd\<lparr>Descriptors := D\<rparr>) ab props (n, s) results ms
           = smiles_step rd ab props (n, s) results ms
         \<and> dict_loop rd ab props ((n, s) # kvs) results ms
           = dict_loop rd ab props kvs
               (dict_set results n \<lparr>entry_smiles = Some s, entry_properties = None\<rparr>) ms
         \<and> list_loop rd ab props (DictItem ((n, s) # kvs) # items) results ms
           = list_loop rd ab props (DictItem kvs # items)
               (dict_set results n \<lparr>entry_smiles = Some s, entry_properties = None\<rparr>) ms
         \<and> (input_candidates (input_data self) = before @ Identifier n s # after
              \<longrightarrow> calculate_body rd self props
                   = (case candidates_loop rd (abbrev_flag self) props before []
                             (molecule_set self) of
                        (Inl e, ms') \<Rightarrow> (Inl e, ms')
                      | (Inr results', ms') \<Rightarrow>
                          candidates_loop rd (abbrev_flag self) props after
                            (dict_set results' n
                               \<lparr>entry_smiles = Some s, entry_properties = None\<rparr>) ms'))"
proof -
  have step: "\<And>results ms. smiles_step rd ab props (n, s) results ms
      = (Inr (dict_set results n \<lparr>entry_smiles = Some s, entry_properties = None\<rparr>), ms)"
    using assms by (simp add: smiles_step_def)
  have step': "smiles_step (rd\<lparr>Descriptors := D\<rparr>) ab props (n, s) results ms
      = (Inr (dict_set results n \<lparr>entry_smiles = Some s, entry_properties = None\<rparr>), ms)"
    using assms by (simp add: smiles_step_def)
  have cstep: "\<And>ab results ms. candidate_step rd ab props (Identifier n s) results ms
      = (Inr (dict_set results n \<lparr>entry_smiles = Some s, entry_properties = None\<rparr>), ms)"
    using assms by (simp add: candidate_step_def smiles_step_def)
  have body: "input_candidates (input_data self) = before @ Identifier n s # after
      \<Longrightarrow> calculate_body rd self props
           = (case candidates_loop rd (abbrev_flag self) props before [] (molecule_set self) of
                (Inl e, ms') \<Rightarrow> (Inl e, ms')
              | (Inr results', ms') \<Rightarrow>
                  candidates_loop rd (abbrev_flag self) props after
                    (dict_set results' n \<lparr>entry_smiles = Some s, entry_properties = None\<rparr>) ms')"
    by (simp add: calculate_body_normalize candidates_loop_append cstep
             split: prod.splits sum.splits)
  show ?thesis
    using step step' body by simp
qed

theorem unparsed_identifier_recorded_with_null_properties_witness:
  "MolFromSmiles demo_rdkit ''not_a_real_molecule!!'' = None
   \<and> smiles_step demo_rdkit True None (''bad'', ''not_a_real_molecule!!'') [] []
       = (Inr (dict_set [] ''bad''
                 \<lparr>entry_smiles = Some ''not_a_real_molecule!!'', entry_properties = None\<rparr>), [])
   \<and> calculate demo_rdkit
        (calculator_init (InDict [(''bad'', ''not_a_real_molecule!!''), (''methane'', ''C'')]) True)
        False (Some [''MolWt''])
       = (Inr (Results
                [(''bad'', \<lparr>entry_smiles = Some ''not_a_real_molecule!!'', entry_properties = None\<rparr>),
                 (''methane'', \<lparr>entry_smiles = Some ''C'',
                                entry_properties = Some [(''MW'', Some 6)]\<rparr>)]),
          \<lparr>input_data = InDict [(''bad'', ''not_a_real_molecule!!''), (''methane'', ''C'')],
           abbrev_flag = True,
           molecule_set = [\<lparr>name = ''methane'', smiles = Some ''C'',
                             properties = Some [(''MW'', Some 6)]\<rparr>]\<rparr>)"
proof -
  have h: "MolFromSmiles demo_rdkit ''not_a_real_molecule!!'' = None"
    by code_simp
  have c: "calculate demo_rdkit
        (calculator_init (InDict [(''bad'', ''not_a_real_molecule!!''), (''methane'', ''C'')]) True)
        False (Some [''MolWt''])
       = (Inr (Results
                [(''bad'', \<lparr>entry_smiles = Some ''not_a_real_molecule!!'', entry_properties = None\<rparr>),
                 (''methane'', \<lparr>entry_smiles = Some ''C'',
                                entry_properties = Some [(''MW'', Some 6)]\<rparr>)]),
          \<lparr>input_data = InDict [(''bad'', ''not_a_real_molecule!!''), (''methane'', ''C'')],
           abbrev_flag = True,
           molecule_set = [\<lparr>name = ''methane'', smiles = Some ''C'',
                             properties = Some [(''MW'', Some 6)]\<rparr>]\<rparr>)"
    by code_simp
  from unparsed_identifier_recorded_with_null_properties [OF h, of True None "''bad''" "[]" "[]"]
  have "smiles_step demo_rdkit True None (''bad'', ''not_a_real_molecule!!'') [] []
       = (Inr (dict_set [] ''bad''
                 \<lparr>entry_smiles = Some ''not_a_real_molecule!!'', entry_properties = None\<rparr>), [])"
    by blast
  with h c show ?thesis by blast
qed

section \<open>Unknown properties\<close>

lemma calculate_loop_first_unknown:
  "find (\<lambda>d. map_of calculator_properties d = None) ds = Some k
     \<Longrightarrow> available rd (takeWhile (\<lambda>d. map_of calculator_properties d \<noteq> None) ds)
     \<Longrightarrow> calculate_loop rd ab m ds result key = Inl (KeyError k)"
proof (induction ds arbitrary: result key)
  case Nil
  then show ?case by simp
next
  case (Cons d ds)
  show ?case
  proof (cases "map_of calculator_properties d")
    case None
    with Cons.prems show ?thesis by simp
  next
    case (Some nms)
    with Cons.prems obtain f where f: "Descriptors rd d = Some f"
      by (auto simp: available_def)
    from Some Cons.prems have
      "find (\<lambda>d. map_of calculator_properties d = None) ds = Some k"
      "available rd (takeWhile (\<lambda>d. map_of calculator_properties d \<noteq> None) ds)"
      by (auto simp: available_def)
    then have "\<And>result key. calculate_loop rd ab m ds result key = Inl (KeyError k)"
      by (rule Cons.IH)
    with Some f show ?thesis by (cases "f m") (simp_all add: Let_def)
  qed
qed

lemma candidates_loop_first_structure_fails:
  assumes "\<And>m. calculate_for_molecule rd ab m props = Inl e"
    and "list_ex (\<lambda>c. candidate_structure rd c \<noteq> None) cs"
  shows "candidates_loop rd ab props cs results ms = (Inl e, ms)"
  using assms(2)
proof (induction cs arbitrary: results)
  case Nil
  then show ?case by simp
next
  case (Cons c cs)
  show ?case
  proof (cases "candidate_structure rd c")
    case None
    with Cons.prems have "list_ex (\<lambda>c. candidate_structure rd c \<noteq> None) cs" by simp
    then have "\<And>results. candidates_loop rd ab props cs results ms = (Inl e, ms)"
      by (rule Cons.IH)
    with None show ?thesis by (simp add: candidate_step_eq)
  next
    case (Some m)
    then show ?thesis by (simp add: candidate_step_eq assms(1))
  qed
qed

text \<open>
  C1, as stated, fails: the registry is consulted inside \<open>_calculate_for_molecule\<close>, once
  per requested key and per structure, so an input without any structure to evaluate
  (here a single identifier that does not parse) returns its result for a request that
  names an unknown key, and no error is raised.
\<close>

theorem unknown_property_without_structure_counterexample:
  "first_unknown [''NoSuchKey''] = Some ''NoSuchKey''
   \<and> calculate demo_rdkit (calculator_init (InDict [(''bad'', ''not_a_real_molecule!!'')]) True)
       False (Some [''NoSuchKey''])
     = (Inr (Results [(''bad'', \<lparr>entry_smiles = Some ''not_a_real_molecule!!'',
                                  entry_properties = None\<rparr>)]),
        calculator_init (InDict [(''bad'', ''not_a_real_molecule!!'')]) True)"
  by code_simp

text \<open>
  C1, amended. For every requested-keys list with a key absent from the registry, in
  which the registry keys listed before the first absent key have their descriptor
  functions, and every input with at least one structure to evaluate (a molecule object,
  or an identifier that parses), \<open>calculate\<close> raises the \<open>KeyError\<close> naming the first absent
  key; it returns no result and leaves \<open>molecule_set\<close> as it was.
\<close>

theorem unknown_property_raises_at_first_structure:
  assumes "first_unknown ps = Some k"
    and "available rd (takeWhile (\<lambda>d. map_of calculator_properties d \<noteq> None) ps)"
    and "list_ex (\<lambda>c. candidate_structure rd c \<noteq> None) (input_candidates (input_data self))"
  shows "calculate rd self as_df (Some ps) = (Inl (KeyError k), self)"
proof -
  from assms(1) have "ps \<noteq> []" by (auto simp: first_unknown_def)
  then have sel: "properties_to_calculate (Some ps) = ps"
    by (cases ps) (simp_all add: properties_to_calculate_def)
  have "\<And>m. calculate_for_molecule rd (abbrev_flag self) m (Some ps) = Inl (KeyError k)"
    using assms(1,2) unfolding calculate_for_molecule_def sel first_unknown_def
    by (rule calculate_loop_first_unknown)
  then have "candidates_loop rd (abbrev_flag self) (Some ps) (input_candidates (input_data self)) []
      (molecule_set self) = (Inl (KeyError k), molecule_set self)"
    using assms(3) by (rule candidates_loop_first_structure_fails)
  then show ?thesis
    by (simp add: calculate_def calculate_body_normalize)
qed

theorem unknown_property_raises_at_first_structure_witness:
  "first_unknown [''MolWt'', ''NoSuchKey'', ''AlsoUnknown''] = Some ''NoSuchKey''
   \<and> available demo_rdkit
       (takeWhile (\<lambda>d. map_of calculator_properties d \<noteq> None)
          [''MolWt'', ''NoSuchKey'', ''AlsoUnknown''])
   \<and> list_ex (\<lambda>c. candidate_structure demo_rdkit c \<noteq> None)
       (input_candidates (input_data
          (calculator_init (InDict [(''bad'', ''xx''), (''ethanol'', ''CCO'')]) True)))
   \<and> calculate demo_rdkit (calculator_init (InDict [(''bad'', ''xx''), (''ethanol'', ''CCO'')]) True)
       False (Some [''MolWt'', ''NoSuchKey'', ''AlsoUnknown''])
     = (Inl (KeyError ''NoSuchKey''),
        calculator_init (InDict [(''bad'', ''xx''), (''ethanol'', ''CCO'')]) True)"
proof -
  have h1: "first_unknown [''MolWt'', ''NoSuchKey'', ''AlsoUnknown''] = Some ''NoSuchKey''"
    by code_simp
  have h2: "available demo_rdkit
       (takeWhile (\<lambda>d. map_of calculator_properties d \<noteq> None)
          [''MolWt'', ''NoSuchKey'', ''AlsoUnknown''])"
    by code_simp
  have h3: "list_ex (\<lambda>c. candidate_structure demo_rdkit c \<noteq> None)
       (input_candidates (input_data
          (calculator_init (InDict [(''bad'', ''xx''), (''ethanol'', ''CCO'')]) True)))"
    by code_simp
  show ?thesis
    using unknown_property_raises_at_first_structure [OF h1 h2 h3, of False] h1 h2 h3
    by blast
qed

section \<open>Calls that return\<close>

lemma removeAll_first_occurrences:
  "removeAll x (first_occurrences ys) = first_occurrences (removeAll x ys)"
proof (induction ys)
  case Nil
  then show ?case by simp
next
  case (Cons y ys)
  have comm: "\<And>zs. removeAll x (removeAll y zs) = removeAll y (removeAll x zs)"
    by (simp add: removeAll_filter_not_eq conj_commute)
  have idem: "\<And>zs. removeAll y (removeAll y zs) = removeAll y zs"
    by (simp add: removeAll_filter_not_eq)
  show ?case
  proof (cases "x = y")
    case True
    have "removeAll x (first_occurrences (y # ys)) = removeAll y (first_occurrences ys)"
      using True idem by simp
    also have "\<dots> = first_occurrences (removeAll y ys)"
      by (rule Cons.IH [unfolded True])
    finally have a: "removeAll x (first_occurrences (y # ys))
        = first_occurrences (removeAll y ys)" .
    have b: "removeAll x (y # ys) = removeAll y ys"
      using True by simp
    show ?thesis unfolding b by (rule a)
  next
    case False
    have "removeAll x (first_occurrences (y # ys))
            = y # removeAll y (removeAll x (first_occurrences ys))"
      using False comm by simp
    also have "\<dots> = y # removeAll y (first_occurrences (removeAll x ys))"
      using Cons.IH by simp
    finally show ?thesis using False by simp
  qed
qed

lemma set_first_occurrences: "set (first_occurrences xs) = set xs"
  by (induction xs) auto

lemma distinct_first_occurrences: "distinct (first_occurrences xs)"
  by (induction xs) (auto simp: distinct_removeAll)

lemma filter_first_occurrences:
  "filter P (first_occurrences xs) = first_occurrences (filter P xs)"
proof (induction xs)
  case Nil
  then show ?case by simp
next
  case (Cons x xs)
  have "filter P (removeAll x (first_occurrences xs))
          = removeAll x (filter P (first_occurrences xs))"
    by (simp add: removeAll_filter_not_eq conj_commute)
  moreover have "\<not> P x \<Longrightarrow> removeAll x (filter P (first_occurrences xs))
      = filter P (first_occurrences xs)"
    by (simp add: removeAll_id)
  ultimately show ?case using Cons.IH by auto
qed

lemma keys_fold_dict_set:
  "map fst (fold (\<lambda>c res. dict_set res (f c) (g c)) cs results)
     = map fst results
       @ first_occurrences (filter (\<lambda>n. n \<notin> set (map fst results)) (map f cs))"
proof (induction cs arbitrary: results)
  case Nil
  then show ?case by simp
next
  case (Cons c cs)
  let ?r = "dict_set results (f c) (g c)"
  have IH: "map fst (fold (\<lambda>c res. dict_set res (f c) (g c)) cs ?r)
     = map fst ?r @ first_occurrences (filter (\<lambda>n. n \<notin> set (map fst ?r)) (map f cs))"
    by (rule Cons.IH)
  show ?case
  proof (cases "f c \<in> set (map fst results)")
    case True
    then have "map fst ?r = map fst results"
      by (simp add: map_fst_dict_set)
    with IH True show ?thesis by simp
  next
    case False
    then have k: "map fst ?r = map fst results @ [f c]"
      by (simp add: map_fst_dict_set)
    have "filter (\<lambda>n. n \<notin> set (map fst ?r)) (map f cs)
            = removeAll (f c) (filter (\<lambda>n. n \<notin> set (map fst results)) (map f cs))"
      unfolding k by (auto simp: removeAll_filter_not_eq intro: filter_cong)
    with IH k False show ?thesis
      by (simp add: removeAll_first_occurrences)
  qed
qed

lemma map_of_fold_dict_set:
  "map_of (fold (\<lambda>c res. dict_set res (f c) (g c)) cs results) n
     = (case last_with (\<lambda>c. f c = n) cs of
          None \<Rightarrow> map_of results n
        | Some c \<Rightarrow> Some (g c))"
proof (induction cs arbitrary: results)
  case Nil
  then show ?case by simp
next
  case (Cons c cs)
  show ?case
    by (simp add: Cons.IH map_of_dict_set split: option.splits)
qed

lemma candidate_step_Inr:
  assumes "candidate_step rd ab props c results ms = (Inr r, ms')"
  shows "r = dict_set results (candidate_name rd c) (candidate_entry rd ab props c)
         \<and> ms' = ms @ appended_records rd ab props [c]
         \<and> list_all (\<lambda>mo. properties mo \<noteq> None) (appended_records rd ab props [c])"
  using assms
  by (auto simp: candidate_step_eq appended_records_def candidate_record_def
        candidate_properties_def split: option.splits sum.splits if_splits)

lemma appended_records_Cons:
  "appended_records rd ab props (c # cs)
     = appended_records rd ab props [c] @ appended_records rd ab props cs"
  by (simp add: appended_records_def)

lemma candidates_loop_Inr:
  "candidates_loop rd ab props cs results ms = (Inr r, ms')
     \<Longrightarrow> r = recorded_results rd ab props cs results
         \<and> ms' = ms @ appended_records rd ab props cs
         \<and> list_all (\<lambda>mo. properties mo \<noteq> None) (appended_records rd ab props cs)"
proof (induction cs arbitrary: results ms)
  case Nil
  then show ?case by (simp add: recorded_results_def appended_records_def)
next
  case (Cons c cs)
  obtain out ms1 where st: "candidate_step rd ab props c results ms = (out, ms1)"
    by (cases "candidate_step rd ab props c results ms")
  from st Cons.prems obtain r1 where out: "out = Inr r1"
    by (cases out) auto
  from st out have s1: "r1 = dict_set results (candidate_name rd c) (candidate_entry rd ab props c)"
    "ms1 = ms @ appended_records rd ab props [c]"
    "list_all (\<lambda>mo. properties mo \<noteq> None) (appended_records rd ab props [c])"
    using candidate_step_Inr [of rd ab props c results ms r1 ms1] by simp_all
  from st out Cons.prems have "candidates_loop rd ab props cs r1 ms1 = (Inr r, ms')"
    by simp
  then have s2: "r = recorded_results rd ab props cs r1"
    "ms' = ms1 @ appended_records rd ab props cs"
    "list_all (\<lambda>mo. properties mo \<noteq> None) (appended_records rd ab props cs)"
    using Cons.IH by simp_all
  show ?case
    using s1 s2 by (simp add: recorded_results_def appended_records_Cons [of rd ab props c cs])
qed

lemma dict_set_no_null:
  "list_all (\<lambda>kv. snd kv \<noteq> None) d \<Longrightarrow> list_all (\<lambda>kv. snd kv \<noteq> None) (dict_set d k (Some x))"
  by (induction d) auto

lemma calculate_loop_computes:
  "list_all (\<lambda>d. map_of calculator_properties d \<noteq> None) ds
     \<Longrightarrow> list_all (\<lambda>d. case Descriptors rd d of None \<Rightarrow> False
                        | Some f \<Rightarrow> (case f m of Returns x \<Rightarrow> True | Raises \<Rightarrow> False)) ds
     \<Longrightarrow> list_all (\<lambda>kv. snd kv \<noteq> None) result
     \<Longrightarrow> \<exists>p. calculate_loop rd ab m ds result key = Inr p \<and> list_all (\<lambda>kv. snd kv \<noteq> None) p"
proof (induction ds arbitrary: result key)
  case Nil
  then show ?case by simp
next
  case (Cons d ds)
  from Cons.prems obtain nms f x where a: "map_of calculator_properties d = Some nms"
    "Descriptors rd d = Some f" "f m = Returns x"
    by (auto split: option.splits outcome.splits)
  define k where "k = (if ab then abbrev nms else full nms)"
  have "list_all (\<lambda>kv. snd kv \<noteq> None) (dict_set result k (Some x))"
    using Cons.prems(3) by (rule dict_set_no_null)
  moreover have "list_all (\<lambda>d. map_of calculator_properties d \<noteq> None) ds"
    "list_all (\<lambda>d. case Descriptors rd d of None \<Rightarrow> False
                        | Some f \<Rightarrow> (case f m of Returns x \<Rightarrow> True | Raises \<Rightarrow> False)) ds"
    using Cons.prems by simp_all
  ultimately have "\<exists>p. calculate_loop rd ab m ds (dict_set result k (Some x)) (Some k) = Inr p
      \<and> list_all (\<lambda>kv. snd kv \<noteq> None) p"
    using Cons.IH by blast
  then show ?case using a by (simp add: k_def Let_def)
qed

lemma calculate_for_molecule_computes:
  assumes "valid_request props" and "computes rd props m"
  shows "\<exists>p. calculate_for_molecule rd ab m props = Inr p \<and> valid_float_dict (Some p)"
  using assms
    calculate_loop_computes [where ds = "properties_to_calculate props" and rd = rd and m = m
      and result = "[]" and ab = ab and key = None]
  by (simp add: valid_request_def computes_def calculate_for_molecule_def valid_float_dict_def)

lemma candidates_loop_total:
  assumes "valid_request props"
  shows "list_all (\<lambda>c. case candidate_structure rd c of None \<Rightarrow> True
                        | Some m \<Rightarrow> computes rd props m) cs
     \<Longrightarrow> \<exists>r ms'. candidates_loop rd ab props cs results ms = (Inr r, ms')"
proof (induction cs arbitrary: results ms)
  case Nil
  then show ?case by simp
next
  case (Cons c cs)
  have "\<exists>r1 ms1. candidate_step rd ab props c results ms = (Inr r1, ms1)"
  proof (cases "candidate_structure rd c")
    case None
    then show ?thesis by (simp add: candidate_step_eq)
  next
    case (Some m)
    with Cons.prems have "computes rd props m" by simp
    with assms obtain p where "calculate_for_molecule rd ab m props = Inr p"
      "valid_float_dict (Some p)"
      using calculate_for_molecule_computes [where props = props and rd = rd and m = m and ab = ab]
      by auto
    with Some show ?thesis by (simp add: candidate_step_eq)
  qed
  then obtain r1 ms1 where st: "candidate_step rd ab props c results ms = (Inr r1, ms1)"
    by blast
  from Cons.prems have "list_all (\<lambda>c. case candidate_structure rd c of None \<Rightarrow> True
                        | Some m \<Rightarrow> computes rd props m) cs" by simp
  then obtain r ms' where "candidates_loop rd ab props cs r1 ms1 = (Inr r, ms')"
    using Cons.IH by blast
  with st show ?case by simp
qed

lemma calculate_returns_results:
  assumes "fst (calculate rd self False props) = Inr out"
  shows "calculate rd self False props
           = (Inr (Results (recorded_results rd (abbrev_flag self) props
                              (input_candidates (input_data self)) [])),
              self\<lparr>molecule_set := molecule_set self
                     @ appended_records rd (abbrev_flag self) props (input_candidates (input_data self))\<rparr>)"
proof -
  obtain b ms' where body: "calculate_body rd self props = (b, ms')"
    by (cases "calculate_body rd self props")
  with assms obtain r where b: "b = Inr r"
    by (cases b) (auto simp: calculate_def)
  from body b have "candidates_loop rd (abbrev_flag self) props (input_candidates (input_data self)) []
      (molecule_set self) = (Inr r, ms')"
    by (simp add: calculate_body_normalize)
  then have "r = recorded_results rd (abbrev_flag self) props (input_candidates (input_data self)) []"
    "ms' = molecule_set self
             @ appended_records rd (abbrev_flag self) props (input_candidates (input_data self))"
    using candidates_loop_Inr [where rd = rd and ab = "abbrev_flag self" and props = props
        and cs = "input_candidates (input_data self)" and results = "[]" and ms = "molecule_set self"
        and r = r and ms' = ms'] by simp_all
  with body b show ?thesis by (simp add: calculate_def)
qed

lemma calculate_served_returns:
  assumes "request_served rd props (input_data self)"
  shows "\<exists>r. fst (calculate rd self False props) = Inr (Results r)"
proof -
  from assms obtain r ms' where
    "candidates_loop rd (abbrev_flag self) props (input_candidates (input_data self)) []
       (molecule_set self) = (Inr r, ms')"
    using candidates_loop_total [where props = props and rd = rd
        and cs = "input_candidates (input_data self)" and ab = "abbrev_flag self" and results = "[]"
        and ms = "molecule_set self"]
    by (auto simp: request_served_def)
  then show ?thesis by (simp add: calculate_def calculate_body_normalize)
qed

section \<open>The returned mapping and the accumulated records\<close>


text \<open>
  C6, as stated, fails for an item whose identifier does not parse: \<open>calculate\<close> stores an
  entry for it in the mapping it returns, but creates no \<open>Molecule\<close> for it, and
  \<open>molecule_set\<close> stays empty.
\<close>

theorem unparsed_item_has_no_record_counterexample:
  "calculate demo_rdkit (calculator_init (InDict [(''bad'', ''not_a_real_molecule!!'')]) True)
     False None
   = (Inr (Results [(''bad'', \<lparr>entry_smiles = Some ''not_a_real_molecule!!'',
                                entry_properties = None\<rparr>)]),
      \<lparr>input_data = InDict [(''bad'', ''not_a_real_molecule!!'')], abbrev_flag = True,
       molecule_set = []\<rparr>)"
  by code_simp

text \<open>
  C6, amended. With \<open>as_df\<close> false, a call of \<open>calculate\<close> that returns gives the mapping
  from name to identifier and properties built by this call, one assignment per input
  item in input order, and has appended to \<open>molecule_set\<close>, after the records of earlier
  calls, one record for each input item that has a structure (a molecule object or an
  identifier that parses), in input order, each with its properties, and none for an
  item whose identifier does not parse. It does return when the library serves the
  request.
\<close>

theorem records_accumulate_for_parsed_items:
  "(request_served rd props (input_data self)
      \<longrightarrow> (\<exists>r. fst (calculate rd self False props) = Inr (Results r)))
   \<and> (\<forall>out. fst (calculate rd self False props) = Inr out
         \<longrightarrow> out = Results (recorded_results rd (abbrev_flag self) props
                             (input_candidates (input_data self)) [])
           \<and> snd (calculate rd self False props)
               = self\<lparr>molecule_set := molecule_set self
                        @ appended_records rd (abbrev_flag self) props
                            (input_candidates (input_data self))\<rparr>
           \<and> map name (appended_records rd (abbrev_flag self) props
                          (input_candidates (input_data self)))
               = map (candidate_name rd)
                   (filter (\<lambda>c. candidate_structure rd c \<noteq> None)
                      (input_candidates (input_data self)))
           \<and> list_all (\<lambda>mo. properties mo \<noteq> None)
                 (appended_records rd (abbrev_flag self) props
                    (input_candidates (input_data self))))"
proof -
  have total: "request_served rd props (input_data self)
      \<longrightarrow> (\<exists>r. fst (calculate rd self False props) = Inr (Results r))"
    using calculate_served_returns by blast
  have names: "map name (appended_records rd (abbrev_flag self) props
                          (input_candidates (input_data self)))
               = map (candidate_name rd)
                   (filter (\<lambda>c. candidate_structure rd c \<noteq> None)
                      (input_candidates (input_data self)))"
    by (simp add: appended_records_def candidate_record_def)
  have partial: "out = Results (recorded_results rd (abbrev_flag self) props
                             (input_candidates (input_data self)) [])
           \<and> snd (calculate rd self False props)
               = self\<lparr>molecule_set := molecule_set self
                        @ appended_records rd (abbrev_flag self) props
                            (input_candidates (input_data self))\<rparr>
           \<and> list_all (\<lambda>mo. properties mo \<noteq> None)
                 (appended_records rd (abbrev_flag self) props
                    (input_candidates (input_data self)))"
    if ret: "fst (calculate rd self False props) = Inr out" for out
  proof -
    have eq: "calculate rd self False props
           = (Inr (Results (recorded_results rd (abbrev_flag self) props
                              (input_candidates (input_data self)) [])),
              self\<lparr>molecule_set := molecule_set self
                     @ appended_records rd (abbrev_flag self) props
                         (input_candidates (input_data self))\<rparr>)"
      using ret by (rule calculate_returns_results)
    obtain b ms' where body: "calculate_body rd self props = (b, ms')"
      by (cases "calculate_body rd self props")
    with ret obtain r where b: "b = Inr r"
      by (cases b) (auto simp: calculate_def)
    from body b have "candidates_loop rd (abbrev_flag self) props
        (input_candidates (input_data self)) [] (molecule_set self) = (Inr r, ms')"
      by (simp add: calculate_body_normalize)
    then have "list_all (\<lambda>mo. properties mo \<noteq> None)
                 (appended_records rd (abbrev_flag self) props
                    (input_candidates (input_data self)))"
      using candidates_loop_Inr [where rd = rd and ab = "abbrev_flag self" and props = props
        and cs = "input_candidates (input_data self)" and results = "[]"
        and ms = "molecule_set self" and r = r and ms' = ms'] by simp
    with eq ret show ?thesis by simp
  qed
  show ?thesis using total names partial by blast
qed

theorem records_accumulate_for_parsed_items_witness:
  "request_served demo_rdkit (Some [''MolWt'']) (input_data demo_calculator)
   \<and> (\<exists>r. fst (calculate demo_rdkit demo_calculator False (Some [''MolWt''])) = Inr (Results r))
   \<and> fst (calculate demo_rdkit demo_calculator False (Some [''MolWt'']))
       = Inr (Results
           [(''bad'', \<lparr>entry_smiles = Some ''xx'', entry_properties = None\<rparr>),
            (''ethanol'', \<lparr>entry_smiles = Some ''CCO'', entry_properties = Some [(''MW'', Some 8)]\<rparr>),
            (''<C>'', \<lparr>entry_smiles = None, entry_properties = Some [(''MW'', Some 6)]\<rparr>)])
   \<and> map name (molecule_set (snd (calculate demo_rdkit demo_calculator False (Some [''MolWt'']))))
       = [''methane'', ''ethanol'', ''<C>'']"
proof -
  have h1: "request_served demo_rdkit (Some [''MolWt'']) (input_data demo_calculator)"
    by code_simp
  have h2: "fst (calculate demo_rdkit demo_calculator False (Some [''MolWt'']))
       = Inr (Results
           [(''bad'', \<lparr>entry_smiles = Some ''xx'', entry_properties = None\<rparr>),
            (''ethanol'', \<lparr>entry_smiles = Some ''CCO'', entry_properties = Some [(''MW'', Some 8)]\<rparr>),
            (''<C>'', \<lparr>entry_smiles = None, entry_properties = Some [(''MW'', Some 6)]\<rparr>)])"
    by code_simp
  have h3: "map name (molecule_set demo_calculator) = [''methane'']"
    by code_simp
  have h4: "map (candidate_name demo_rdkit)
              (filter (\<lambda>c. candidate_structure demo_rdkit c \<noteq> None)
                 (input_candidates (input_data demo_calculator)))
            = [''ethanol'', ''<C>'']"
    by code_simp
  note t = records_accumulate_for_parsed_items
    [of demo_rdkit "Some [''MolWt'']" demo_calculator]
  from t h1 have e: "\<exists>r. fst (calculate demo_rdkit demo_calculator False (Some [''MolWt'']))
      = Inr (Results r)"
    by blast
  from t h2 have "snd (calculate demo_rdkit demo_calculator False (Some [''MolWt'']))
               = demo_calculator\<lparr>molecule_set := molecule_set demo_calculator
                        @ appended_records demo_rdkit (abbrev_flag demo_calculator)
                            (Some [''MolWt'']) (input_candidates (input_data demo_calculator))\<rparr>"
    and "map name (appended_records demo_rdkit (abbrev_flag demo_calculator) (Some [''MolWt''])
                          (input_candidates (input_data demo_calculator)))
               = map (candidate_name demo_rdkit)
                   (filter (\<lambda>c. candidate_structure demo_rdkit c \<noteq> None)
                      (input_candidates (input_data demo_calculator)))"
    by blast+
  then have "map name (molecule_set
      (snd (calculate demo_rdkit demo_calculator False (Some [''MolWt'']))))
       = [''methane'', ''ethanol'', ''<C>'']"
    using h3 h4 by simp
  with h1 h2 e show ?thesis by blast
qed

text \<open>
  C8. Whatever the shape of the input (a single object, a dict, a list of dicts, a list
  that mixes dicts and objects), the mapping that \<open>calculate\<close> returns has one entry for
  each distinct name of the input, the names in the order of their first occurrence in
  the iteration over the input; an object is named by \<open>str\<close>. The call returns whenever
  the library serves the request.
\<close>

theorem one_entry_per_distinct_name_in_input_order:
  "(request_served rd props (input_data self)
      \<longrightarrow> (\<exists>r. fst (calculate rd self False props) = Inr (Results r)))
   \<and> (\<forall>r. fst (calculate rd self False props) = Inr (Results r)
         \<longrightarrow> map fst r
               = first_occurrences
                   (map (candidate_name rd) (input_candidates (input_data self)))
           \<and> distinct (map fst r)
           \<and> set (map fst r) = candidate_name rd ` set (input_candidates (input_data self))
           \<and> (\<forall>obj. input_data self = InObj obj \<longrightarrow> map fst r = [str rd obj]))"
proof -
  have total: "request_served rd props (input_data self)
      \<longrightarrow> (\<exists>r. fst (calculate rd self False props) = Inr (Results r))"
    using calculate_served_returns by blast
  have partial: "map fst r
               = first_occurrences
                   (map (candidate_name rd) (input_candidates (input_data self)))
           \<and> distinct (map fst r)
           \<and> set (map fst r) = candidate_name rd ` set (input_candidates (input_data self))
           \<and> (\<forall>obj. input_data self = InObj obj \<longrightarrow> map fst r = [str rd obj])"
    if ret: "fst (calculate rd self False props) = Inr (Results r)" for r
  proof -
    have "calculate rd self False props
           = (Inr (Results (recorded_results rd (abbrev_flag self) props
                              (input_candidates (input_data self)) [])),
              self\<lparr>molecule_set := molecule_set self
                     @ appended_records rd (abbrev_flag self) props
                         (input_candidates (input_data self))\<rparr>)"
      using ret by (rule calculate_returns_results)
    with ret have r: "r = recorded_results rd (abbrev_flag self) props
                              (input_candidates (input_data self)) []"
      by simp
    have keys: "map fst r = first_occurrences
                   (map (candidate_name rd) (input_candidates (input_data self)))"
      unfolding r recorded_results_def
      using keys_fold_dict_set [where f = "candidate_name rd"
          and g = "candidate_entry rd (abbrev_flag self) props"
          and cs = "input_candidates (input_data self)" and results = "[]"]
      by simp
    have "distinct (map fst r)"
      unfolding keys by (rule distinct_first_occurrences)
    moreover have "set (map fst r) = candidate_name rd ` set (input_candidates (input_data self))"
      unfolding keys by (simp add: set_first_occurrences)
    moreover have "\<forall>obj. input_data self = InObj obj \<longrightarrow> map fst r = [str rd obj]"
      unfolding keys by (simp add: input_candidates_def candidate_name_def)
    ultimately show ?thesis using keys by blast
  qed
  show ?thesis using total partial by blast
qed

theorem one_entry_per_distinct_name_in_input_order_witness:
  "request_served demo_rdkit (Some [''MolWt''])
     (input_data (calculator_init
        (InList [DictItem [(''a'', ''C''), (''bad'', ''xx'')], ObjItem ''CCO'',
                 DictItem [(''a'', ''CCO'')]]) True :: (string, int) calculator))
   \<and> fst (calculate demo_rdkit
        (calculator_init
           (InList [DictItem [(''a'', ''C''), (''bad'', ''xx'')], ObjItem ''CCO'',
                    DictItem [(''a'', ''CCO'')]]) True)
        False (Some [''MolWt'']))
       = Inr (Results
           [(''a'', \<lparr>entry_smiles = Some ''CCO'', entry_properties = Some [(''MW'', Some 8)]\<rparr>),
            (''bad'', \<lparr>entry_smiles = Some ''xx'', entry_properties = None\<rparr>),
            (''<CCO>'', \<lparr>entry_smiles = None, entry_properties = Some [(''MW'', Some 8)]\<rparr>)])
   \<and> map fst
         [(''a'', \<lparr>entry_smiles = Some ''CCO'', entry_properties = Some [(''MW'', Some (8::int))]\<rparr>),
          (''bad'', \<lparr>entry_smiles = Some ''xx'', entry_properties = None\<rparr>),
          (''<CCO>'', \<lparr>entry_smiles = None, entry_properties = Some [(''MW'', Some 8)]\<rparr>)]
       = first_occurrences
           (map (candidate_name demo_rdkit)
              (input_candidates (input_data (calculator_init
                 (InList [DictItem [(''a'', ''C''), (''bad'', ''xx'')], ObjItem ''CCO'',
                          DictItem [(''a'', ''CCO'')]]) True :: (string, int) calculator))))"
proof -
  have h1: "request_served demo_rdkit (Some [''MolWt''])
     (input_data (calculator_init
        (InList [DictItem [(''a'', ''C''), (''bad'', ''xx'')], ObjItem ''CCO'',
                 DictItem [(''a'', ''CCO'')]]) True :: (string, int) calculator))"
    by code_simp
  have h2: "fst (calculate demo_rdkit
        (calculator_init
           (InList [DictItem [(''a'', ''C''), (''bad'', ''xx'')], ObjItem ''CCO'',
                    DictItem [(''a'', ''CCO'')]]) True)
        False (Some [''MolWt'']))
       = Inr (Results
           [(''a'', \<lparr>entry_smiles = Some ''CCO'', entry_properties = Some [(''MW'', Some 8)]\<rparr>),
            (''bad'', \<lparr>entry_smiles = Some ''xx'', entry_properties = None\<rparr>),
            (''<CCO>'', \<lparr>entry_smiles = None, entry_properties = Some [(''MW'', Some 8)]\<rparr>)])"
    by code_simp
  show ?thesis
    using one_entry_per_distinct_name_in_input_order
      [of demo_rdkit "Some [''MolWt'']"
          "calculator_init
             (InList [DictItem [(''a'', ''C''), (''bad'', ''xx'')], ObjItem ''CCO'',
                      DictItem [(''a'', ''CCO'')]]) True"] h1 h2
    by blast
qed

section \<open>The tabular export\<close>

lemma frame_rows_eq:
  "list_all (\<lambda>mo. properties mo \<noteq> None) ms
     \<Longrightarrow> frame_rows ms data = Inr (fold (\<lambda>mo d. dict_set d (name mo) (record_row mo)) ms data)"
  by (induction ms arbitrary: data) (auto simp: record_row_def)

lemma frame_rows_null:
  "\<not> list_all (\<lambda>mo. properties mo \<noteq> None) ms \<Longrightarrow> frame_rows ms data = Inl TypeError"
  by (induction ms arbitrary: data) (auto split: option.splits)

lemma last_with_Some:
  "last_with P xs = Some y \<Longrightarrow> y \<in> set xs \<and> P y"
  by (induction xs) (auto split: option.splits if_splits)

lemma last_with_None:
  "last_with P xs = None \<Longrightarrow> \<forall>x\<in>set xs. \<not> P x"
  by (induction xs) (auto split: option.splits if_splits)

lemma keys_record_row:
  "set (map fst (record_row mo))
     = insert ''smiles'' (set (map fst (case properties mo of None \<Rightarrow> [] | Some p \<Rightarrow> p)))"
proof -
  have "fst ` set (dict_set (map (\<lambda>kv. (fst kv, property_cell (snd kv)))
                      (case properties mo of None \<Rightarrow> [] | Some p \<Rightarrow> p))
                    ''smiles'' (smiles_cell (smiles mo)))
        = insert ''smiles'' (fst ` set (map (\<lambda>kv. (fst kv, property_cell (snd kv)))
                      (case properties mo of None \<Rightarrow> [] | Some p \<Rightarrow> p)))"
    by (rule set_fst_dict_set)
  then show ?thesis
    by (simp add: record_row_def frame_row_def image_image)
qed

lemma smiles_record_row: "map_of (record_row mo) ''smiles'' = Some (smiles_cell (smiles mo))"
  by (simp add: record_row_def frame_row_def map_of_dict_set)

lemma frame_columns_distinct:
  assumes "distinct (map fst data)"
  shows "frame_columns data
           = (\<Union>n\<in>frame_index data. case map_of data n of None \<Rightarrow> {}
                                      | Some row \<Rightarrow> set (map fst row))"
proof -
  have "frame_columns data = (\<Union>kv\<in>set data. set (map fst (snd kv)))"
    by (auto simp: frame_columns_def)
  also have "\<dots> = (\<Union>n\<in>frame_index data. case map_of data n of None \<Rightarrow> {}
                                      | Some row \<Rightarrow> set (map fst row))"
  proof (intro set_eqI iffI)
    fix c
    assume "c \<in> (\<Union>kv\<in>set data. set (map fst (snd kv)))"
    then obtain n row where m: "(n, row) \<in> set data" "c \<in> set (map fst row)"
      by force
    with assms have "map_of data n = Some row" by simp
    with m show "c \<in> (\<Union>n\<in>frame_index data. case map_of data n of None \<Rightarrow> {}
                                      | Some row \<Rightarrow> set (map fst row))"
      by (force simp: frame_index_def)
  next
    fix c
    assume "c \<in> (\<Union>n\<in>frame_index data. case map_of data n of None \<Rightarrow> {}
                                      | Some row \<Rightarrow> set (map fst row))"
    then obtain n row where "map_of data n = Some row" "c \<in> set (map fst row)"
      by (auto split: option.splits)
    then have "(n, row) \<in> set data" "c \<in> set (map fst row)"
      by (auto dest: map_of_SomeD)
    then show "c \<in> (\<Union>kv\<in>set data. set (map fst (snd kv)))"
      by force
  qed
  finally show ?thesis .
qed

lemma to_dataframe_rows:
  assumes "list_all (\<lambda>mo. properties mo \<noteq> None) (molecule_set self)"
  shows "\<exists>data. to_dataframe self = Inr data
           \<and> map fst data = first_occurrences (map name (molecule_set self))
           \<and> frame_index data = name ` set (molecule_set self)
           \<and> (\<forall>n\<in>frame_index data.
                 \<exists>mo. last_with (\<lambda>mo. name mo = n) (molecule_set self) = Some mo
                      \<and> map_of data n = Some (record_row mo)
                      \<and> frame_cell data n ''smiles'' = Some (smiles_cell (smiles mo)))
           \<and> frame_columns data
               = (\<Union>n\<in>frame_index data.
                     case last_with (\<lambda>mo. name mo = n) (molecule_set self) of
                       None \<Rightarrow> {}
                     | Some mo \<Rightarrow> insert ''smiles'' (set (map fst (the (properties mo)))))"
proof -
  define ms where "ms = molecule_set self"
  define data where "data = fold (\<lambda>mo d. dict_set d (name mo) (record_row mo)) ms []"
  have df: "to_dataframe self = Inr data"
    using assms by (simp add: to_dataframe_def frame_rows_eq data_def ms_def)
  have keys: "map fst data = first_occurrences (map name ms)"
    unfolding data_def
    using keys_fold_dict_set [where f = name and g = record_row and cs = ms and results = "[]"]
    by simp
  have idx: "frame_index data = name ` set ms"
    by (simp add: frame_index_def keys set_first_occurrences)
  have dist: "distinct (map fst data)"
    unfolding keys by (rule distinct_first_occurrences)
  have look: "map_of data n = (case last_with (\<lambda>mo. name mo = n) ms of
                                  None \<Rightarrow> None | Some mo \<Rightarrow> Some (record_row mo))" for n
    unfolding data_def
    using map_of_fold_dict_set [where f = name and g = record_row and cs = ms
        and results = "[]" and n = n]
    by (simp split: option.splits)
  have win: "\<exists>mo. last_with (\<lambda>mo. name mo = n) ms = Some mo" if "n \<in> frame_index data" for n
  proof (cases "last_with (\<lambda>mo. name mo = n) ms")
    case None
    then have "\<forall>mo\<in>set ms. name mo \<noteq> n" by (rule last_with_None)
    with that idx show ?thesis by auto
  next
    case (Some mo)
    then show ?thesis by blast
  qed
  have rows: "\<forall>n\<in>frame_index data.
                 \<exists>mo. last_with (\<lambda>mo. name mo = n) ms = Some mo
                      \<and> map_of data n = Some (record_row mo)
                      \<and> frame_cell data n ''smiles'' = Some (smiles_cell (smiles mo))"
  proof
    fix n assume "n \<in> frame_index data"
    then obtain mo where mo: "last_with (\<lambda>mo. name mo = n) ms = Some mo"
      using win by blast
    then have "map_of data n = Some (record_row mo)"
      by (simp add: look)
    moreover from this have "frame_cell data n ''smiles'' = Some (smiles_cell (smiles mo))"
      by (simp add: frame_cell_def smiles_record_row)
    ultimately show "\<exists>mo. last_with (\<lambda>mo. name mo = n) ms = Some mo
                      \<and> map_of data n = Some (record_row mo)
                      \<and> frame_cell data n ''smiles'' = Some (smiles_cell (smiles mo))"
      using mo by blast
  qed
  have props: "properties mo \<noteq> None" if "last_with (\<lambda>mo. name mo = n) ms = Some mo" for n mo
  proof -
    from that have "mo \<in> set ms" by (auto dest: last_with_Some)
    with assms show ?thesis by (auto simp: list_all_iff ms_def)
  qed
  have cell: "(case map_of data n of None \<Rightarrow> {} | Some row \<Rightarrow> set (map fst row))
      = (case last_with (\<lambda>mo. name mo = n) ms of
           None \<Rightarrow> {}
         | Some mo \<Rightarrow> insert ''smiles'' (set (map fst (the (properties mo)))))" for n
  proof (cases "last_with (\<lambda>mo. name mo = n) ms")
    case None
    then show ?thesis by (simp add: look)
  next
    case (Some mo)
    then obtain p where "properties mo = Some p"
      using props by blast
    with Some show ?thesis
      using keys_record_row [of mo] by (simp add: look)
  qed
  have cols: "frame_columns data
               = (\<Union>n\<in>frame_index data.
                     case last_with (\<lambda>mo. name mo = n) ms of
                       None \<Rightarrow> {}
                     | Some mo \<Rightarrow> insert ''smiles'' (set (map fst (the (properties mo)))))"
    unfolding frame_columns_distinct [OF dist] using cell by simp
  show ?thesis
    using df keys idx rows cols unfolding ms_def by blast
qed

text \<open>
  C7, as stated, fails for an identifier that does not parse: no record is made for it,
  and the table has no row for its name.
\<close>

theorem unparsed_identifier_has_no_row_counterexample:
  "fst (calculate demo_rdkit
          (calculator_init (InDict [(''bad'', ''not_a_real_molecule!!''), (''methane'', ''C'')]) True)
          True (Some [''MolWt'']))
     = Inr (Table [(''methane'', [(''MW'', Number 6), (''smiles'', Text ''C'')])])
   \<and> frame_index [(''methane'', [(''MW'', Number (6::int)), (''smiles'', Text ''C'')])]
     = {''methane''}"
  by code_simp

text \<open>
  C7, amended. In the tabular export every accumulated record contributes to the one row
  keyed by its name: the table has exactly one row for each distinct name of a record,
  the row holds the properties and, in the column \<open>smiles\<close>, the identifier of the last
  record of that name, and the columns are \<open>smiles\<close> and the property display names of
  those records. An identifier that failed to parse has no record, so the rows after a
  call of \<open>calculate\<close> are the names of the records held before and the names of the
  input items that have a structure. The export returns whenever every record has its
  properties, and so does \<open>calculate\<close> with \<open>as_df\<close> true when the library serves the
  request.
\<close>

theorem table_has_one_row_per_record_name:
  "(list_all (\<lambda>mo. properties mo \<noteq> None) (molecule_set self)
      \<longrightarrow> (\<exists>data. to_dataframe self = Inr data
             \<and> map fst data = first_occurrences (map name (molecule_set self))
             \<and> frame_index data = name ` set (molecule_set self)
             \<and> (\<forall>n\<in>frame_index data.
                   \<exists>mo. last_with (\<lambda>mo. name mo = n) (molecule_set self) = Some mo
                        \<and> map_of data n = Some (record_row mo)
                        \<and> frame_cell data n ''smiles'' = Some (smiles_cell (smiles mo)))
             \<and> frame_columns data
                 = (\<Union>n\<in>frame_index data.
                       case last_with (\<lambda>mo. name mo = n) (molecule_set self) of
                         None \<Rightarrow> {}
                       | Some mo \<Rightarrow> insert ''smiles'' (set (map fst (the (properties mo)))))))
   \<and> (request_served rd props (input_data self)
        \<and> list_all (\<lambda>mo. properties mo \<noteq> None) (molecule_set self)
      \<longrightarrow> (\<exists>data. fst (calculate rd self True props) = Inr (Table data)))
   \<and> (\<forall>out. fst (calculate rd self True props) = Inr out
         \<longrightarrow> (\<exists>data. out = Table data
                \<and> to_dataframe (snd (calculate rd self True props)) = Inr data
                \<and> frame_index data
                    = name ` set (molecule_set self)
                      \<union> candidate_name rd
                          ` {c \<in> set (input_candidates (input_data self)).
                               candidate_structure rd c \<noteq> None}))"
proof -
  let ?cs = "input_candidates (input_data self)"
  let ?ab = "abbrev_flag self"
  have export: "list_all (\<lambda>mo. properties mo \<noteq> None) (molecule_set self)
      \<longrightarrow> (\<exists>data. to_dataframe self = Inr data
             \<and> map fst data = first_occurrences (map name (molecule_set self))
             \<and> frame_index data = name ` set (molecule_set self)
             \<and> (\<forall>n\<in>frame_index data.
                   \<exists>mo. last_with (\<lambda>mo. name mo = n) (molecule_set self) = Some mo
                        \<and> map_of data n = Some (record_row mo)
                        \<and> frame_cell data n ''smiles'' = Some (smiles_cell (smiles mo)))
             \<and> frame_columns data
                 = (\<Union>n\<in>frame_index data.
                       case last_with (\<lambda>mo. name mo = n) (molecule_set self) of
                         None \<Rightarrow> {}
                       | Some mo \<Rightarrow> insert ''smiles'' (set (map fst (the (properties mo))))))"
    using to_dataframe_rows [of self] by blast
  have names: "name ` set (appended_records rd ?ab props ?cs)
      = candidate_name rd ` {c \<in> set ?cs. candidate_structure rd c \<noteq> None}"
    by (simp add: appended_records_def candidate_record_def image_image)
  have total: "\<exists>data. fst (calculate rd self True props) = Inr (Table data)"
    if served: "request_served rd props (input_data self)"
      and held: "list_all (\<lambda>mo. properties mo \<noteq> None) (molecule_set self)"
  proof -
    from served obtain r ms' where
      loop: "candidates_loop rd ?ab props ?cs [] (molecule_set self) = (Inr r, ms')"
      using candidates_loop_total [where props = props and rd = rd and cs = ?cs and ab = ?ab
          and results = "[]" and ms = "molecule_set self"]
      by (auto simp: request_served_def)
    then have "ms' = molecule_set self @ appended_records rd ?ab props ?cs"
      "list_all (\<lambda>mo. properties mo \<noteq> None) (appended_records rd ?ab props ?cs)"
      using candidates_loop_Inr [where rd = rd and ab = ?ab and props = props and cs = ?cs
          and results = "[]" and ms = "molecule_set self" and r = r and ms' = ms']
      by simp_all
    with held have "list_all (\<lambda>mo. properties mo \<noteq> None)
        (molecule_set (self\<lparr>molecule_set := ms'\<rparr>))"
      by simp
    then obtain data where "to_dataframe (self\<lparr>molecule_set := ms'\<rparr>) = Inr data"
      using to_dataframe_rows [of "self\<lparr>molecule_set := ms'\<rparr>"] by blast
    with loop show ?thesis
      by (simp add: calculate_def calculate_body_normalize)
  qed
  have partial: "\<exists>data. out = Table data
                \<and> to_dataframe (snd (calculate rd self True props)) = Inr data
                \<and> frame_index data
                    = name ` set (molecule_set self)
                      \<union> candidate_name rd ` {c \<in> set ?cs. candidate_structure rd c \<noteq> None}"
    if ret: "fst (calculate rd self True props) = Inr out" for out
  proof -
    obtain b ms' where body: "calculate_body rd self props = (b, ms')"
      by (cases "calculate_body rd self props")
    with ret obtain r where b: "b = Inr r"
      by (cases b) (auto simp: calculate_def)
    from body b ret obtain data where
      df: "to_dataframe (self\<lparr>molecule_set := ms'\<rparr>) = Inr data" and out: "out = Table data"
      by (auto simp: calculate_def Let_def split: sum.splits)
    from body b df have snd: "snd (calculate rd self True props) = self\<lparr>molecule_set := ms'\<rparr>"
      by (simp add: calculate_def)
    from body b have "candidates_loop rd ?ab props ?cs [] (molecule_set self) = (Inr r, ms')"
      by (simp add: calculate_body_normalize)
    then have ms': "ms' = molecule_set self @ appended_records rd ?ab props ?cs"
      using candidates_loop_Inr [where rd = rd and ab = ?ab and props = props and cs = ?cs
          and results = "[]" and ms = "molecule_set self" and r = r and ms' = ms']
      by simp
    have "list_all (\<lambda>mo. properties mo \<noteq> None) ms'"
    proof (rule ccontr)
      assume "\<not> list_all (\<lambda>mo. properties mo \<noteq> None) ms'"
      then have "frame_rows ms' [] = Inl TypeError" by (rule frame_rows_null)
      with df show False by (simp add: to_dataframe_def)
    qed
    then have "list_all (\<lambda>mo. properties mo \<noteq> None)
        (molecule_set (self\<lparr>molecule_set := ms'\<rparr>))"
      by simp
    then obtain data' where "to_dataframe (self\<lparr>molecule_set := ms'\<rparr>) = Inr data'"
      "frame_index data' = name ` set (molecule_set (self\<lparr>molecule_set := ms'\<rparr>))"
      using to_dataframe_rows [of "self\<lparr>molecule_set := ms'\<rparr>"] by blast
    with df have "frame_index data = name ` set ms'" by simp
    then have "frame_index data = name ` set (molecule_set self)
        \<union> candidate_name rd ` {c \<in> set ?cs. candidate_structure rd c \<noteq> None}"
      unfolding ms' using names by (simp add: image_Un)
    with out df snd show ?thesis by simp
  qed
  show ?thesis using export total partial by blast
qed

theorem table_has_one_row_per_record_name_witness:
  "list_all (\<lambda>mo. properties mo \<noteq> None) (molecule_set demo_calculator)
   \<and> request_served demo_rdkit (Some [''MolWt'']) (input_data demo_calculator)
   \<and> (\<exists>data. to_dataframe demo_calculator = Inr data
          \<and> frame_index data = name ` set (molecule_set demo_calculator))
   \<and> fst (calculate demo_rdkit demo_calculator True (Some [''MolWt'']))
       = Inr (Table [(''methane'', [(''MW'', Number 6), (''smiles'', Text ''C'')]),
                     (''ethanol'', [(''MW'', Number 8), (''smiles'', Text ''CCO'')]),
                     (''<C>'', [(''MW'', Number 6), (''smiles'', NoneCell)])])
   \<and> frame_index [(''methane'', [(''MW'', Number (6::int)), (''smiles'', Text ''C'')]),
                   (''ethanol'', [(''MW'', Number 8), (''smiles'', Text ''CCO'')]),
                   (''<C>'', [(''MW'', Number 6), (''smiles'', NoneCell)])]
       = name ` set (molecule_set demo_calculator)
         \<union> candidate_name demo_rdkit
             ` {c \<in> set (input_candidates (input_data demo_calculator)).
                  candidate_structure demo_rdkit c \<noteq> None}"
proof -
  have h1: "list_all (\<lambda>mo. properties mo \<noteq> None) (molecule_set demo_calculator)"
    by code_simp
  have h2: "request_served demo_rdkit (Some [''MolWt'']) (input_data demo_calculator)"
    by code_simp
  have h3: "fst (calculate demo_rdkit demo_calculator True (Some [''MolWt'']))
       = Inr (Table [(''methane'', [(''MW'', Number 6), (''smiles'', Text ''C'')]),
                     (''ethanol'', [(''MW'', Number 8), (''smiles'', Text ''CCO'')]),
                     (''<C>'', [(''MW'', Number 6), (''smiles'', NoneCell)])])"
    by code_simp
  note t = table_has_one_row_per_record_name [of demo_calculator demo_rdkit "Some [''MolWt'']"]
  from t h1 have a: "\<exists>data. to_dataframe demo_calculator = Inr data
          \<and> frame_index data = name ` set (molecule_set demo_calculator)"
    by blast
  from t h3 have b: "frame_index [(''methane'', [(''MW'', Number (6::int)), (''smiles'', Text ''C'')]),
                   (''ethanol'', [(''MW'', Number 8), (''smiles'', Text ''CCO'')]),
                   (''<C>'', [(''MW'', Number 6), (''smiles'', NoneCell)])]
       = name ` set (molecule_set demo_calculator)
         \<union> candidate_name demo_rdkit
             ` {c \<in> set (input_candidates (input_data demo_calculator)).
                  candidate_structure demo_rdkit c \<noteq> None}"
    by blast
  from h1 h2 h3 a b show ?thesis by blast
qed

section \<open>Abbreviated and full names\<close>

lemma display_names_distinct:
  "distinct (map (\<lambda>kn. abbrev (snd kn)) calculator_properties)
   \<and> distinct (map (\<lambda>kn. full (snd kn)) calculator_properties)"
  by code_simp

lemma names_match_iff:
  "names_match ka kf
     \<longleftrightarrow> (\<exists>kn\<in>set calculator_properties. ka = abbrev (snd kn) \<and> kf = full (snd kn))"
  by (simp add: names_match_def list_ex_iff)

lemma names_match_inj:
  assumes "names_match a f" and "names_match a' f'"
  shows "a = a' \<longleftrightarrow> f = f'"
proof -
  from assms obtain kn kn' where kn: "kn \<in> set calculator_properties"
    "a = abbrev (snd kn)" "f = full (snd kn)"
    and kn': "kn' \<in> set calculator_properties" "a' = abbrev (snd kn')" "f' = full (snd kn')"
    by (auto simp: names_match_iff)
  have ia: "inj_on (\<lambda>kn. abbrev (snd kn)) (set calculator_properties)"
    and "if": "inj_on (\<lambda>kn. full (snd kn)) (set calculator_properties)"
    using display_names_distinct by (simp_all add: distinct_map)
  have "a = a' \<longleftrightarrow> kn = kn'"
    using ia kn kn' by (auto dest: inj_onD)
  moreover have "f = f' \<longleftrightarrow> kn = kn'"
    using "if" kn kn' by (auto dest: inj_onD)
  ultimately show ?thesis by simp
qed

lemma names_match_registry:
  "map_of calculator_properties d = Some nms \<Longrightarrow> names_match (abbrev nms) (full nms)"
  by (force simp: names_match_iff dest: map_of_SomeD)

lemma dict_set_same_values:
  assumes "same_values ra rf" and "names_match a f"
  shows "same_values (dict_set ra a v) (dict_set rf f v)"
  using assms(1) unfolding same_values_def
proof (induction ra rf rule: list_all2_induct)
  case Nil
  then show ?case using assms(2) by simp
next
  case (Cons x ra y rf)
  obtain a' va where x: "x = (a', va)" by (cases x)
  obtain f' vf where y: "y = (f', vf)" by (cases y)
  from Cons.hyps(1) x y have m: "names_match a' f'" "va = vf" by simp_all
  have eq: "a' = a \<longleftrightarrow> f' = f"
    using m(1) assms(2) by (rule names_match_inj)
  show ?case
    using Cons x y m eq assms(2) by auto
qed

lemma calculate_loop_same_values:
  "same_values ra rf \<Longrightarrow> rel_option names_match ka kf
     \<Longrightarrow> rel_sum (=) same_values
           (calculate_loop rd True m ds ra ka) (calculate_loop rd False m ds rf kf)"
proof (induction ds arbitrary: ra rf ka kf)
  case Nil
  then show ?case by simp
next
  case (Cons d ds)
  show ?case
  proof (cases "map_of calculator_properties d")
    case None
    then show ?thesis by simp
  next
    case (Some nms)
    then have nm: "names_match (abbrev nms) (full nms)"
      by (rule names_match_registry)
    show ?thesis
    proof (cases "Descriptors rd d")
      case None
      show ?thesis
      proof (cases ka)
        case ka: None
        with Cons.prems(2) have "kf = None" by (cases kf) simp_all
        with ka Some None show ?thesis by simp
      next
        case ka: (Some a)
        with Cons.prems(2) obtain f where kf: "kf = Some f" and af: "names_match a f"
          by (cases kf) simp_all
        have "same_values (dict_set ra a None) (dict_set rf f None)"
          using Cons.prems(1) af by (rule dict_set_same_values)
        moreover have "rel_option names_match (Some a) (Some f)"
          using af by simp
        ultimately have "rel_sum (=) same_values
             (calculate_loop rd True m ds (dict_set ra a None) (Some a))
             (calculate_loop rd False m ds (dict_set rf f None) (Some f))"
          by (rule Cons.IH)
        with Some None ka kf show ?thesis by simp
      qed
    next
      case (Some g)
      define v where "v = (case g m of Returns x \<Rightarrow> Some x | Raises \<Rightarrow> None)"
      have "same_values (dict_set ra (abbrev nms) v) (dict_set rf (full nms) v)"
        using Cons.prems(1) nm by (rule dict_set_same_values)
      moreover have "rel_option names_match (Some (abbrev nms)) (Some (full nms))"
        using nm by simp
      ultimately have "rel_sum (=) same_values
             (calculate_loop rd True m ds (dict_set ra (abbrev nms) v) (Some (abbrev nms)))
             (calculate_loop rd False m ds (dict_set rf (full nms) v) (Some (full nms)))"
        by (rule Cons.IH)
      with \<open>map_of calculator_properties d = Some nms\<close> Some show ?thesis
        by (cases "g m") (simp_all add: v_def Let_def)
    qed
  qed
qed

lemma calculate_for_molecule_same_values:
  "rel_sum (=) same_values
     (calculate_for_molecule rd True m props) (calculate_for_molecule rd False m props)"
  unfolding calculate_for_molecule_def
  by (rule calculate_loop_same_values) (simp_all add: same_values_def)

lemma same_values_valid:
  "same_values pa pf \<Longrightarrow> valid_float_dict (Some pa) = valid_float_dict (Some pf)"
  unfolding same_values_def valid_float_dict_def
  by (induction pa pf rule: list_all2_induct) auto

lemma dict_set_same_entries:
  assumes "same_entries ra rf" and "same_entry ea ef"
  shows "same_entries (dict_set ra n ea) (dict_set rf n ef)"
  using assms(1) unfolding same_entries_def
proof (induction ra rf rule: list_all2_induct)
  case Nil
  then show ?case using assms(2) by simp
next
  case (Cons x ra y rf)
  then show ?case using assms(2) by (cases x; cases y) auto
qed

lemma candidate_step_same_entries:
  assumes "same_entries ra rf"
  shows "rel_sum (=) same_entries
           (fst (candidate_step rd True props c ra msa))
           (fst (candidate_step rd False props c rf msf))"
proof (cases "candidate_structure rd c")
  case None
  have "same_entry (candidate_entry rd True props c) (candidate_entry rd False props c)"
    using None by (simp add: same_entry_def candidate_entry_def candidate_properties_def)
  with assms have "same_entries
      (dict_set ra (candidate_name rd c) (candidate_entry rd True props c))
      (dict_set rf (candidate_name rd c) (candidate_entry rd False props c))"
    by (rule dict_set_same_entries)
  with None show ?thesis by (simp add: candidate_step_eq)
next
  case (Some m)
  have rel: "rel_sum (=) same_values
     (calculate_for_molecule rd True m props) (calculate_for_molecule rd False m props)"
    by (rule calculate_for_molecule_same_values)
  show ?thesis
  proof (cases "calculate_for_molecule rd True m props")
    case (Inl e)
    with rel have "calculate_for_molecule rd False m props = Inl e"
      by (cases "calculate_for_molecule rd False m props") simp_all
    with Inl Some show ?thesis by (simp add: candidate_step_eq)
  next
    case (Inr pa)
    with rel obtain pf where pf: "calculate_for_molecule rd False m props = Inr pf"
      and sv: "same_values pa pf"
      by (cases "calculate_for_molecule rd False m props") simp_all
    have v: "valid_float_dict (Some pa) = valid_float_dict (Some pf)"
      using sv by (rule same_values_valid)
    have "same_entry (candidate_entry rd True props c) (candidate_entry rd False props c)"
      using Some Inr pf sv
      by (simp add: same_entry_def candidate_entry_def candidate_properties_def)
    with assms have "same_entries
        (dict_set ra (candidate_name rd c) (candidate_entry rd True props c))
        (dict_set rf (candidate_name rd c) (candidate_entry rd False props c))"
      by (rule dict_set_same_entries)
    with Some Inr pf v show ?thesis by (simp add: candidate_step_eq)
  qed
qed

lemma candidates_loop_same_entries:
  "same_entries ra rf
     \<Longrightarrow> rel_sum (=) same_entries
           (fst (candidates_loop rd True props cs ra msa))
           (fst (candidates_loop rd False props cs rf msf))"
proof (induction cs arbitrary: ra rf msa msf)
  case Nil
  then show ?case by simp
next
  case (Cons c cs)
  obtain oa ma where sa: "candidate_step rd True props c ra msa = (oa, ma)"
    by (cases "candidate_step rd True props c ra msa")
  obtain obf mf where sf: "candidate_step rd False props c rf msf = (obf, mf)"
    by (cases "candidate_step rd False props c rf msf")
  have rel: "rel_sum (=) same_entries oa obf"
    using candidate_step_same_entries [OF Cons.prems, of rd props c msa msf] sa sf by simp
  show ?case
  proof (cases oa)
    case (Inl e)
    with rel have "obf = Inl e" by (cases obf) simp_all
    with Inl sa sf show ?thesis by simp
  next
    case (Inr ra')
    with rel obtain rf' where rf': "obf = Inr rf'" and se: "same_entries ra' rf'"
      by (cases obf) simp_all
    have "rel_sum (=) same_entries
           (fst (candidates_loop rd True props cs ra' ma))
           (fst (candidates_loop rd False props cs rf' mf))"
      using se by (rule Cons.IH)
    with Inr rf' sa sf show ?thesis by simp
  qed
qed

text \<open>
  C9. Computing with abbreviated and with full names gives the same outcome up to the
  names: for every structure and every request the evaluator raises the same exception
  in both cases, or returns two mappings that hold the same values in the same order,
  the keys of the first being the abbreviated and those of the second the full names of
  the same registry entries; and for every input and every request, \<open>calculate\<close> on two
  fresh instances that differ in the flag raises the same exception or returns two
  result mappings with the same names, the same identifiers and such property mappings.
\<close>

theorem abbreviation_changes_names_only:
  "rel_sum (=) same_values
     (calculate_for_molecule rd True m props) (calculate_for_molecule rd False m props)
   \<and> rel_sum (=) same_returned
       (fst (calculate rd (calculator_init inp True) False props))
       (fst (calculate rd (calculator_init inp False) False props))
   \<and> (request_served rd props inp
        \<longrightarrow> (\<exists>ra rf. fst (calculate rd (calculator_init inp True) False props)
                         = Inr (Results ra)
                     \<and> fst (calculate rd (calculator_init inp False) False props)
                         = Inr (Results rf)
                     \<and> same_entries ra rf))"
proof -
  have "rel_sum (=) same_entries
           (fst (candidates_loop rd True props (input_candidates inp) [] []))
           (fst (candidates_loop rd False props (input_candidates inp) [] []))"
    by (rule candidates_loop_same_entries) (simp add: same_entries_def)
  then have both: "rel_sum (=) same_returned
       (fst (calculate rd (calculator_init inp True) False props))
       (fst (calculate rd (calculator_init inp False) False props))"
    by (cases "candidates_loop rd True props (input_candidates inp) [] []";
        cases "candidates_loop rd False props (input_candidates inp) [] []")
       (auto simp: calculate_def calculate_body_normalize calculator_init_def same_returned_def
          elim!: rel_sum.cases)
  have evaluator: "rel_sum (=) same_values
     (calculate_for_molecule rd True m props) (calculate_for_molecule rd False m props)"
    by (rule calculate_for_molecule_same_values)
  have served: "\<exists>ra rf. fst (calculate rd (calculator_init inp True) False props)
                         = Inr (Results ra)
                     \<and> fst (calculate rd (calculator_init inp False) False props)
                         = Inr (Results rf)
                     \<and> same_entries ra rf"
    if "request_served rd props inp"
  proof -
    from that obtain ra where
      ra: "fst (calculate rd (calculator_init inp True) False props) = Inr (Results ra)"
      using calculate_served_returns [of rd props "calculator_init inp True"]
      by (auto simp: calculator_init_def)
    from that obtain rf where
      rf: "fst (calculate rd (calculator_init inp False) False props) = Inr (Results rf)"
      using calculate_served_returns [of rd props "calculator_init inp False"]
      by (auto simp: calculator_init_def)
    from both have "same_entries ra rf"
      unfolding ra rf by (simp add: same_returned_def)
    with ra rf show ?thesis by blast
  qed
  show ?thesis
    using evaluator both served by (intro conjI impI)
qed

theorem abbreviation_changes_names_only_witness:
  "request_served demo_rdkit (Some [''MolWt'', ''TPSA''])
     (InDict [(''bad'', ''xx''), (''ethanol'', ''CCO'')])
   \<and> (\<exists>ra rf. fst (calculate demo_rdkit
                       (calculator_init (InDict [(''bad'', ''xx''), (''ethanol'', ''CCO'')]) True)
                       False (Some [''MolWt'', ''TPSA''])) = Inr (Results ra)
              \<and> fst (calculate demo_rdkit
                       (calculator_init (InDict [(''bad'', ''xx''), (''ethanol'', ''CCO'')]) False)
                       False (Some [''MolWt'', ''TPSA''])) = Inr (Results rf)
              \<and> same_entries ra rf)
   \<and> calculate_for_molecule demo_rdkit True ''CCO'' (Some [''MolWt'', ''TPSA''])
     = Inr [(''MW'', Some 8), (''TPSA'', Some 7)]
   \<and> calculate_for_molecule demo_rdkit False ''CCO'' (Some [''MolWt'', ''TPSA''])
     = Inr [(''Molecular Weight'', Some 8), (''TPSA'', Some 7)]
   \<and> same_values [(''MW'', Some (8::int)), (''TPSA'', Some 7)]
       [(''Molecular Weight'', Some 8), (''TPSA'', Some 7)]"
proof -
  have h0: "request_served demo_rdkit (Some [''MolWt'', ''TPSA''])
     (InDict [(''bad'', ''xx''), (''ethanol'', ''CCO'')])"
    by code_simp
  have h1: "calculate_for_molecule demo_rdkit True ''CCO'' (Some [''MolWt'', ''TPSA''])
     = Inr [(''MW'', Some 8), (''TPSA'', Some 7)]"
    by code_simp
  have h2: "calculate_for_molecule demo_rdkit False ''CCO'' (Some [''MolWt'', ''TPSA''])
     = Inr [(''Molecular Weight'', Some 8), (''TPSA'', Some 7)]"
    by code_simp
  note t = abbreviation_changes_names_only
    [of demo_rdkit "''CCO''" "Some [''MolWt'', ''TPSA'']"
        "InDict [(''bad'', ''xx''), (''ethanol'', ''CCO'')]"]
  from t have "rel_sum (=) same_values
     (calculate_for_molecule demo_rdkit True ''CCO'' (Some [''MolWt'', ''TPSA'']))
     (calculate_for_molecule demo_rdkit False ''CCO'' (Some [''MolWt'', ''TPSA'']))"
    by (rule conjunct1)
  then have v: "same_values [(''MW'', Some (8::int)), (''TPSA'', Some 7)]
       [(''Molecular Weight'', Some 8), (''TPSA'', Some 7)]"
    unfolding h1 h2 by simp
  from t h0 have e: "\<exists>ra rf. fst (calculate demo_rdkit
                       (calculator_init (InDict [(''bad'', ''xx''), (''ethanol'', ''CCO'')]) True)
                       False (Some [''MolWt'', ''TPSA''])) = Inr (Results ra)
              \<and> fst (calculate demo_rdkit
                       (calculator_init (InDict [(''bad'', ''xx''), (''ethanol'', ''CCO'')]) False)
                       False (Some [''MolWt'', ''TPSA''])) = Inr (Results rf)
              \<and> same_entries ra rf"
    by (elim conjE) (erule mp)
  from h0 e h1 h2 v show ?thesis by (intro conjI)
qed

end
